theory Spec2Isabelle
  imports Complex_Main
begin

section \<open>JavaScript numbers\<close>

text \<open>
  A JavaScript number is a finite value, one of the two infinities, or NaN. The
  operators \<open>js_add\<close>, \<open>js_sub\<close>, \<open>js_mul\<close> and \<open>js_div\<close> take finite arithmetic
  exactly, over the reals, without the rounding of IEEE doubles and without overflow; the
  sign of zero is not part of the model. The special values follow the IEEE rules the
  language prescribes (NaN is absorbing, every comparison with NaN is false,
  \<open>Infinity - Infinity\<close> is NaN, and so on). Where a result is compared with a small
  threshold, in the direction classifier, the operators \<open>dbl_add\<close> and \<open>dbl_sub\<close>
  below are used instead: they round as doubles do.
\<close>

datatype jsnum = Fin real | PInf | NInf | NaN

fun Number_isFinite :: "jsnum \<Rightarrow> bool" where
  "Number_isFinite (Fin _) = True"
| "Number_isFinite _ = False"

text \<open>The relational operators \<open><\<close>, \<open>>\<close>, \<open><=\<close>, \<open>>=\<close>, \<open>===\<close> and \<open>!==\<close>.\<close>

fun js_lt :: "jsnum \<Rightarrow> jsnum \<Rightarrow> bool" where
  "js_lt (Fin a) (Fin b) = (a < b)"
| "js_lt (Fin _) PInf = True"
| "js_lt NInf (Fin _) = True"
| "js_lt NInf PInf = True"
| "js_lt _ _ = False"

fun js_seq :: "jsnum \<Rightarrow> jsnum \<Rightarrow> bool" where
  "js_seq (Fin a) (Fin b) = (a = b)"
| "js_seq PInf PInf = True"
| "js_seq NInf NInf = True"
| "js_seq _ _ = False"

definition js_gt :: "jsnum \<Rightarrow> jsnum \<Rightarrow> bool" where
  "js_gt a b = js_lt b a"

definition js_le :: "jsnum \<Rightarrow> jsnum \<Rightarrow> bool" where
  "js_le a b = (js_lt a b \<or> js_seq a b)"

definition js_ge :: "jsnum \<Rightarrow> jsnum \<Rightarrow> bool" where
  "js_ge a b = js_le b a"

definition js_sne :: "jsnum \<Rightarrow> jsnum \<Rightarrow> bool" where
  "js_sne a b = (\<not> js_seq a b)"

text \<open>The arithmetic operators \<open>+\<close>, \<open>-\<close>, \<open>*\<close>, \<open>/\<close> and \<open>%\<close>.\<close>

fun js_neg :: "jsnum \<Rightarrow> jsnum" where
  "js_neg (Fin a) = Fin (- a)"
| "js_neg PInf = NInf"
| "js_neg NInf = PInf"
| "js_neg NaN = NaN"

fun js_add :: "jsnum \<Rightarrow> jsnum \<Rightarrow> jsnum" where
  "js_add (Fin a) (Fin b) = Fin (a + b)"
| "js_add NaN _ = NaN"
| "js_add _ NaN = NaN"
| "js_add PInf NInf = NaN"
| "js_add NInf PInf = NaN"
| "js_add PInf _ = PInf"
| "js_add _ PInf = PInf"
| "js_add NInf _ = NInf"
| "js_add _ NInf = NInf"

definition js_sub :: "jsnum \<Rightarrow> jsnum \<Rightarrow> jsnum" where
  "js_sub a b = js_add a (js_neg b)"

text \<open>The sign of a value that is not NaN: an unsigned zero counts as positive zero.\<close>

fun js_nonneg :: "jsnum \<Rightarrow> bool" where
  "js_nonneg (Fin a) = (0 \<le> a)"
| "js_nonneg PInf = True"
| "js_nonneg _ = False"

definition signed_inf :: "bool \<Rightarrow> jsnum" where
  "signed_inf pos = (if pos then PInf else NInf)"

fun js_mul :: "jsnum \<Rightarrow> jsnum \<Rightarrow> jsnum" where
  "js_mul (Fin a) (Fin b) = Fin (a * b)"
| "js_mul NaN _ = NaN"
| "js_mul _ NaN = NaN"
| "js_mul (Fin a) y = (if a = 0 then NaN else signed_inf ((0 < a) = js_nonneg y))"
| "js_mul x (Fin b) = (if b = 0 then NaN else signed_inf (js_nonneg x = (0 < b)))"
| "js_mul x y = signed_inf (js_nonneg x = js_nonneg y)"

fun js_div :: "jsnum \<Rightarrow> jsnum \<Rightarrow> jsnum" where
  "js_div (Fin a) (Fin b) =
     (if b \<noteq> 0 then Fin (a / b)
      else if a = 0 then NaN
      else signed_inf (0 < a))"
| "js_div NaN _ = NaN"
| "js_div _ NaN = NaN"
| "js_div (Fin _) _ = Fin 0"
| "js_div x (Fin b) = signed_inf (js_nonneg x = (0 \<le> b))"
| "js_div _ _ = NaN"

text \<open>Truncation toward zero, and the remainder that takes the sign of the dividend.\<close>

definition trunc :: "real \<Rightarrow> int" where
  "trunc x = (if 0 \<le> x then \<lfloor>x\<rfloor> else \<lceil>x\<rceil>)"

fun js_rem :: "jsnum \<Rightarrow> jsnum \<Rightarrow> jsnum" where
  "js_rem (Fin a) (Fin b) = (if b = 0 then NaN else Fin (a - b * of_int (trunc (a / b))))"
| "js_rem (Fin a) PInf = Fin a"
| "js_rem (Fin a) NInf = Fin a"
| "js_rem _ _ = NaN"

text \<open>The functions of \<open>Math\<close> that the program calls.\<close>

fun Math_abs :: "jsnum \<Rightarrow> jsnum" where
  "Math_abs (Fin a) = Fin \<bar>a\<bar>"
| "Math_abs PInf = PInf"
| "Math_abs NInf = PInf"
| "Math_abs NaN = NaN"

fun Math_round :: "jsnum \<Rightarrow> jsnum" where
  "Math_round (Fin a) = Fin (of_int \<lfloor>a + 1 / 2\<rfloor>)"
| "Math_round x = x"

fun Math_min :: "jsnum \<Rightarrow> jsnum \<Rightarrow> jsnum" where
  "Math_min NaN _ = NaN"
| "Math_min _ NaN = NaN"
| "Math_min a b = (if js_lt b a then b else a)"

fun Math_max :: "jsnum \<Rightarrow> jsnum \<Rightarrow> jsnum" where
  "Math_max NaN _ = NaN"
| "Math_max _ NaN = NaN"
| "Math_max a b = (if js_lt a b then b else a)"

fun Math_cos :: "jsnum \<Rightarrow> jsnum" where
  "Math_cos (Fin a) = Fin (cos a)"
| "Math_cos _ = NaN"

fun Math_sin :: "jsnum \<Rightarrow> jsnum" where
  "Math_sin (Fin a) = Fin (sin a)"
| "Math_sin _ = NaN"

text \<open>
  \<open>null\<close> and a number share a variable in the program (\<open>startTimestampMs\<close>);
  in arithmetic \<open>null\<close> converts to \<open>0\<close>.
\<close>

fun toNumber :: "jsnum option \<Rightarrow> jsnum" where
  "toNumber None = Fin 0"
| "toNumber (Some x) = x"

subsection \<open>Rounding to a double\<close>

text \<open>
  The double nearest to a real number, ties to the even significand: in the binade of
  \<open>x\<close>, from \<open>2^e\<close> up to \<open>2^(e+1)\<close> with \<open>e\<close> at least \<open>-1022\<close>, doubles are
  \<open>2^(e-52)\<close> apart. A result of magnitude \<open>2^1024\<close> or more is an infinity. The
  operators \<open>+\<close> and \<open>-\<close> of doubles return the exact result rounded in this way; the
  remainder \<open>%\<close> of two doubles is a double, so \<open>js_rem\<close> needs no rounding.
\<close>

definition round_even :: "real \<Rightarrow> int" where
  "round_even y =
     (let f = \<lfloor>y\<rfloor>; d = y - of_int f
      in if d < 1 / 2 then f else if 1 / 2 < d then f + 1 else if even f then f else f + 1)"

definition exponents :: "int list" where
  "exponents = rev [- 1022 .. 1023]"

definition binade :: "real \<Rightarrow> int" where
  "binade x =
     (case find (\<lambda>e. power_int 2 e \<le> \<bar>x\<bar>) exponents of
        None \<Rightarrow> - 1022 | Some e \<Rightarrow> e)"

definition ulp :: "real \<Rightarrow> real" where
  "ulp x = power_int 2 (binade x - 52)"

definition nearest_double :: "real \<Rightarrow> real" where
  "nearest_double x = ulp x * of_int (round_even (x / ulp x))"

definition to_double :: "real \<Rightarrow> jsnum" where
  "to_double x =
     (let y = nearest_double x
      in if 2 ^ 1024 \<le> y then PInf else if y \<le> - (2 ^ 1024) then NInf else Fin y)"

fun dbl :: "jsnum \<Rightarrow> jsnum" where
  "dbl (Fin x) = to_double x"
| "dbl x = x"

definition dbl_add :: "jsnum \<Rightarrow> jsnum \<Rightarrow> jsnum" where
  "dbl_add a b = dbl (js_add a b)"

definition dbl_sub :: "jsnum \<Rightarrow> jsnum \<Rightarrow> jsnum" where
  "dbl_sub a b = dbl (js_sub a b)"

section \<open>Strings\<close>

text \<open>
  A string is a list of code units; the model covers the code units \<open>0..255\<close>. A value
  that may be \<open>undefined\<close> is an option.
\<close>

definition dquote :: char where
  "dquote = CHR 0x22"

definition comma :: char where
  "comma = CHR 0x2C"

text \<open>White space and line terminators, as \<open>String.prototype.trim\<close> strips them.\<close>

definition js_space :: "char \<Rightarrow> bool" where
  "js_space c = (c \<in> {CHR 0x09, CHR 0x0A, CHR 0x0B, CHR 0x0C, CHR 0x0D, CHR 0x20, CHR 0xA0})"

definition trim :: "string \<Rightarrow> string" where
  "trim s = rev (dropWhile js_space (rev (dropWhile js_space s)))"

definition toLowerChar :: "char \<Rightarrow> char" where
  "toLowerChar c =
     (let n = (of_char c :: nat)
      in if (65 \<le> n \<and> n \<le> 90) \<or> (192 \<le> n \<and> n \<le> 222 \<and> n \<noteq> 215)
         then char_of (n + 32) else c)"

definition toLowerCase :: "string \<Rightarrow> string" where
  "toLowerCase s = map toLowerChar s"

text \<open>Reading an array element: out of range gives \<open>undefined\<close>.\<close>

definition at_index :: "'a list \<Rightarrow> nat \<Rightarrow> 'a option" where
  "at_index xs i = (if i < length xs then Some (xs ! i) else None)"

text \<open>\<open>Array.prototype.findIndex\<close>: the first index that satisfies the test, or \<open>-1\<close>.\<close>

fun findIndex :: "('a \<Rightarrow> bool) \<Rightarrow> 'a list \<Rightarrow> int" where
  "findIndex p [] = - 1"
| "findIndex p (x # xs) =
     (if p x then 0
      else (let r = findIndex p xs in if r < 0 then - 1 else r + 1))"

text \<open>\<open>s.split(',')\<close>: the pieces between commas, always at least one.\<close>

fun split_comma :: "string \<Rightarrow> string \<Rightarrow> string list" where
  "split_comma [] cur = [cur]"
| "split_comma (c # rest) cur =
     (if c = comma then cur # split_comma rest [] else split_comma rest (cur @ [c]))"

text \<open>\<open>text.split(/\r?\n/)\<close>: a line ends at a line feed, with the carriage return before it.\<close>

fun split_lines :: "string \<Rightarrow> string \<Rightarrow> string list" where
  "split_lines [] cur = [cur]"
| "split_lines (c # rest) cur =
     (if c = CHR 0x0A then cur # split_lines rest []
      else if c = CHR 0x0D \<and> rest \<noteq> [] \<and> hd rest = CHR 0x0A then cur # split_lines (tl rest) []
      else split_lines rest (cur @ [c]))"

text \<open>\<open>s.replace(/""/g, '"')\<close>: every pair of quotes, left to right, becomes one quote.\<close>

fun replace_dquotes :: "string \<Rightarrow> string" where
  "replace_dquotes (a # b # rest) =
     (if a = dquote \<and> b = dquote then dquote # replace_dquotes rest
      else a # replace_dquotes (b # rest))"
| "replace_dquotes s = s"

section \<open>CSV record parser\<close>

text \<open>
  \<open>splitCSVLine\<close>: the loop over the characters of the line. The arguments are the
  characters from index \<open>i\<close> on, and the variables \<open>out\<close>, \<open>cur\<close> and \<open>inQuotes\<close>.
\<close>

fun splitCSVLine_loop :: "string \<Rightarrow> string list \<Rightarrow> string \<Rightarrow> bool \<Rightarrow> string list" where
  "splitCSVLine_loop [] out cur inQuotes = out @ [cur]"
| "splitCSVLine_loop (ch # rest) out cur inQuotes =
     (if ch = dquote then
        (if inQuotes \<and> rest \<noteq> [] \<and> hd rest = dquote
         then splitCSVLine_loop (tl rest) out (cur @ [dquote]) inQuotes
         else splitCSVLine_loop rest out cur (\<not> inQuotes))
      else if ch = comma \<and> \<not> inQuotes then splitCSVLine_loop rest (out @ [cur]) [] inQuotes
      else splitCSVLine_loop rest out (cur @ [ch]) inQuotes)"

definition splitCSVLine :: "string \<Rightarrow> string list" where
  "splitCSVLine line = splitCSVLine_loop line [] [] False"

text \<open>\<open>unquote\<close>: a value that is not a string (here \<open>undefined\<close>) passes through.\<close>

fun unquote :: "string option \<Rightarrow> string option" where
  "unquote None = None"
| "unquote (Some s0) =
     (let s = trim s0
      in if length s \<ge> 2 \<and> hd s = dquote \<and> last s = dquote
         then Some (replace_dquotes (butlast (tl s)))
         else Some s)"

text \<open>Truthiness of a string or \<open>undefined\<close>: only a non-empty string is truthy.\<close>

fun truthy :: "string option \<Rightarrow> bool" where
  "truthy None = False"
| "truthy (Some s) = (s \<noteq> [])"

section \<open>Track state\<close>

record row =
  lat :: jsnum
  lon :: jsnum
  alt :: jsnum
  spd :: jsnum
  hdg :: jsnum
  utc :: string
  timestampMs :: jsnum

record bounds_t =
  latMin :: jsnum
  latMax :: jsnum
  lonMin :: jsnum
  lonMax :: jsnum

record range_t =
  altMin :: jsnum
  altMax :: jsnum
  spdMin :: jsnum
  spdMax :: jsnum

datatype dir = DirE | DirW

text \<open>
  The module's global variables. \<open>None\<close> is \<open>null\<close>. The field \<open>rangeS\<close> is the
  global \<open>range\<close>.
\<close>

record state =
  rows :: "row list"
  bounds :: bounds_t
  rangeS :: range_t
  startTimestampMs :: "jsnum option"
  endTimestampMs :: "jsnum option"
  trackDir :: "dir option"
  actualTakeOffMs :: "jsnum option"
  actualLandingMs :: "jsnum option"

definition resetDataHolders :: state where
  "resetDataHolders =
     \<lparr> rows = [],
       bounds = \<lparr> latMin = Fin 1000000000, latMax = Fin (- 1000000000), lonMin = Fin 1000000000, lonMax = Fin (- 1000000000) \<rparr>,
       rangeS = \<lparr> altMin = Fin 1000000000, altMax = Fin (- 1000000000), spdMin = Fin 1000000000, spdMax = Fin (- 1000000000) \<rparr>,
       startTimestampMs = None, endTimestampMs = None, trackDir = None,
       actualTakeOffMs = None, actualLandingMs = None \<rparr>"

section \<open>Row parsing and the track builder\<close>

text \<open>
  \<open>Number(...)\<close> is a built-in of the language. Its conversion of a string is a
  parameter \<open>num\<close> of the parser; \<open>Number(undefined)\<close> is NaN.
\<close>

fun Number :: "(string \<Rightarrow> jsnum) \<Rightarrow> string option \<Rightarrow> jsnum" where
  "Number num None = NaN"
| "Number num (Some s) = num s"

text \<open>\<open>findIdx(name)\<close>: the column of a header name, compared in lower case.\<close>

definition findIdx :: "string list \<Rightarrow> string \<Rightarrow> int" where
  "findIdx headers name = findIndex (\<lambda>h. toLowerCase h = toLowerCase name) headers"

record header_idx =
  iPos :: int
  iAlt :: int
  iSpd :: int
  iHdg :: int
  iUtc :: int
  iTs :: int

definition resolve_headers :: "string \<Rightarrow> header_idx" where
  "resolve_headers line0 =
     (let headers = map trim (splitCSVLine line0)
      in \<lparr> iPos = findIdx headers ''Position'',
           iAlt = findIdx headers ''Altitude'',
           iSpd = findIdx headers ''Speed'',
           iHdg = findIdx headers ''Direction'',
           iUtc = findIdx headers ''UTC'',
           iTs = findIdx headers ''Timestamp'' \<rparr>)"

text \<open>\<open>cols[i]\<close> for a column index that is not negative.\<close>

definition col :: "string list \<Rightarrow> int \<Rightarrow> string option" where
  "col cols i = at_index cols (nat i)"

text \<open>The test \<open>!cols.length\<close> at the head of the row loop.\<close>

definition no_columns :: "string list \<Rightarrow> bool" where
  "no_columns cols = (length cols = 0)"

text \<open>The value of \<open>pos\<close> in the row loop: the unquoted Position field.\<close>

definition position_field :: "header_idx \<Rightarrow> string list \<Rightarrow> string option" where
  "position_field ix cols = unquote (if iPos ix \<ge> 0 then col cols (iPos ix) else Some [])"

text \<open>
  One pass of the row loop up to \<open>rows.push\<close>: \<open>None\<close> when the pass ends with
  \<open>continue\<close>, the new row otherwise.
\<close>

definition parseRow :: "(string \<Rightarrow> jsnum) \<Rightarrow> header_idx \<Rightarrow> string \<Rightarrow> row option" where
  "parseRow num ix line =
     (let cols = splitCSVLine line
      in if no_columns cols then None
         else (let pos = position_field ix cols
               in if \<not> truthy pos then None
                  else (case pos of
                      None \<Rightarrow> None
                    | Some p \<Rightarrow>
                        (let parts = split_comma p [];
                             latStr = at_index parts 0;
                             lonStr = at_index parts 1;
                             ts = Number num (col cols (iTs ix))
                         in Some \<lparr> lat = Number num latStr,
                                   lon = Number num lonStr,
                                   alt = (if iAlt ix \<ge> 0 then Number num (col cols (iAlt ix)) else NaN),
                                   spd = (if iSpd ix \<ge> 0 then Number num (col cols (iSpd ix)) else NaN),
                                   hdg = (if iHdg ix \<ge> 0 then Number num (col cols (iHdg ix)) else NaN),
                                   utc = (if iUtc ix \<ge> 0 \<and> truthy (col cols (iUtc ix))
                                          then (case unquote (col cols (iUtc ix)) of
                                                  Some u \<Rightarrow> u | None \<Rightarrow> [])
                                          else []),
                                   timestampMs =
                                     (if iTs ix \<ge> 0 \<and> Number_isFinite ts
                                      then js_mul ts (Fin 1000) else NaN) \<rparr>))))"

text \<open>
  The rest of the pass: the row is appended, and the bounds and ranges follow its finite
  fields. The functions \<open>min\<close> and \<open>max\<close> of the drawing library are \<open>Math.min\<close>
  and \<open>Math.max\<close> on two numbers.
\<close>

definition ingest :: "state \<Rightarrow> row \<Rightarrow> state" where
  "ingest s r =
     (let b = bounds s; g = rangeS s;
          b1 = (if Number_isFinite (lat r)
                then b\<lparr> latMin := Math_min (latMin b) (lat r), latMax := Math_max (latMax b) (lat r) \<rparr>
                else b);
          b2 = (if Number_isFinite (lon r)
                then b1\<lparr> lonMin := Math_min (lonMin b1) (lon r), lonMax := Math_max (lonMax b1) (lon r) \<rparr>
                else b1);
          g1 = (if Number_isFinite (alt r)
                then g\<lparr> altMin := Math_min (altMin g) (alt r), altMax := Math_max (altMax g) (alt r) \<rparr>
                else g);
          g2 = (if Number_isFinite (spd r)
                then g1\<lparr> spdMin := Math_min (spdMin g1) (spd r), spdMax := Math_max (spdMax g1) (spd r) \<rparr>
                else g1)
      in s\<lparr> rows := rows s @ [r], bounds := b2, rangeS := g2 \<rparr>)"

definition row_pass :: "(string \<Rightarrow> jsnum) \<Rightarrow> header_idx \<Rightarrow> state \<Rightarrow> string \<Rightarrow> state" where
  "row_pass num ix s line = (case parseRow num ix line of None \<Rightarrow> s | Some r \<Rightarrow> ingest s r)"

section \<open>Flight-phase detector\<close>

text \<open>
  A forward loop \<open>for (i = i0; i < n; i++) if (p i) { idx = i; break; }\<close> and a backward
  loop \<open>for (i = k - 1; i >= 0; i--) ...\<close>; \<open>d\<close> is the value \<open>idx\<close> had before the loop.
\<close>

function scan_up :: "(nat \<Rightarrow> bool) \<Rightarrow> nat \<Rightarrow> nat \<Rightarrow> int \<Rightarrow> int" where
  "scan_up p i n d = (if i < n then (if p i then int i else scan_up p (Suc i) n d) else d)"
  by pat_completeness auto
termination
  by (relation "measure (\<lambda>(p, i, n, d). n - i)") auto

declare scan_up.simps [simp del]

fun scan_down :: "(nat \<Rightarrow> bool) \<Rightarrow> nat \<Rightarrow> int \<Rightarrow> int" where
  "scan_down p 0 d = d"
| "scan_down p (Suc k) d = (if p k then int k else scan_down p k d)"

definition airborne :: "row \<Rightarrow> bool" where
  "airborne r =
     (Number_isFinite (timestampMs r) \<and> Number_isFinite (alt r) \<and> js_gt (alt r) (Fin 0))"

definition takeoffIdx :: "row list \<Rightarrow> int" where
  "takeoffIdx rs = scan_up (\<lambda>i. airborne (rs ! i)) 0 (length rs) (- 1)"

definition touchdown :: "row list \<Rightarrow> nat \<Rightarrow> bool" where
  "touchdown rs i =
     (let prev = rs ! (i - 1); cur = rs ! i
      in Number_isFinite (alt prev) \<and> Number_isFinite (alt cur) \<and>
         js_sne (alt prev) (Fin 0) \<and> js_seq (alt cur) (Fin 0) \<and>
         Number_isFinite (timestampMs cur))"

definition landingIdx :: "row list \<Rightarrow> int" where
  "landingIdx rs =
     (if takeoffIdx rs \<ge> 0
      then scan_up (touchdown rs) (nat (takeoffIdx rs) + 1) (length rs) (- 1)
      else - 1)"

subsection \<open>Average speed during flight\<close>

definition has_time :: "row list \<Rightarrow> nat \<Rightarrow> bool" where
  "has_time rs i = (case at_index rs i of None \<Rightarrow> False | Some r \<Rightarrow> Number_isFinite (timestampMs r))"

text \<open>The indices \<open>iStart\<close> and \<open>iEnd\<close> after the two fallbacks.\<close>

definition flightSpan :: "row list \<Rightarrow> int \<times> int" where
  "flightSpan rs =
     (let iStart0 = takeoffIdx rs;
          iEnd0 = landingIdx rs;
          iStart = (if iStart0 < 0 then scan_up (has_time rs) 0 (length rs) iStart0 else iStart0);
          iEnd = (if iEnd0 \<le> iStart then scan_down (has_time rs) (length rs) iEnd0 else iEnd0)
      in (iStart, iEnd))"

text \<open>One pass of the segment loop on the pair \<open>(weightedSum, totalDt)\<close>.\<close>

definition segment_pass :: "row list \<Rightarrow> jsnum \<times> jsnum \<Rightarrow> nat \<Rightarrow> jsnum \<times> jsnum" where
  "segment_pass rs acc i =
     (case (at_index rs i, at_index rs (i + 1)) of
        (Some a, Some b) \<Rightarrow>
          if \<not> Number_isFinite (timestampMs a) \<or> \<not> Number_isFinite (timestampMs b) then acc
          else (let dt = js_div (js_sub (timestampMs b) (timestampMs a)) (Fin 1000)
                in if \<not> js_gt dt (Fin 0) then acc
                   else if \<not> Number_isFinite (alt a) \<or> \<not> Number_isFinite (alt b) \<or>
                           js_le (alt a) (Fin 0) \<or> js_le (alt b) (Fin 0) then acc
                   else (let sA = (if Number_isFinite (spd a) then spd a else NaN);
                             sB = (if Number_isFinite (spd b) then spd b else NaN)
                         in if \<not> Number_isFinite sA \<or> \<not> Number_isFinite sB then acc
                            else (let sAvg = js_mul (Fin (1 / 2)) (js_add sA sB)
                                  in (js_add (fst acc) (js_mul sAvg dt), js_add (snd acc) dt))))
      | _ \<Rightarrow> acc)"

text \<open>
  \<open>updateAvgSpeedDuringFlight\<close>: the value \<open>avgKt\<close> that is shown (rounded), or
  \<open>None\<close> where the dash is shown.
\<close>

definition updateAvgSpeedDuringFlight :: "row list \<Rightarrow> jsnum option" where
  "updateAvgSpeedDuringFlight rs =
     (let (iStart, iEnd) = flightSpan rs
      in if \<not> (iStart \<ge> 0) \<or> \<not> (iEnd > iStart) then None
         else (let (weightedSum, totalDt) =
                     foldl (segment_pass rs) (Fin 0, Fin 0) [nat iStart ..< nat iEnd]
               in if js_gt totalDt (Fin 0) then Some (js_div weightedSum totalDt) else None))"

section \<open>Direction classifier\<close>

text \<open>
  \<open>updateTrackDir\<close>, with the sums and differences rounded as doubles and the literal
  \<open>1e-6\<close> as the double it denotes.
\<close>

definition updateTrackDir :: "jsnum \<Rightarrow> jsnum \<Rightarrow> jsnum \<Rightarrow> jsnum \<Rightarrow> dir option" where
  "updateTrackDir lat1 lon1 lat2 lon2 =
     (if \<not> Number_isFinite lat1 \<or> \<not> Number_isFinite lon1 \<or>
         \<not> Number_isFinite lat2 \<or> \<not> Number_isFinite lon2 then None
      else (let dlon = dbl_sub (js_rem (dbl_add (dbl_sub lon2 lon1) (Fin 540)) (Fin 360)) (Fin 180)
            in if js_lt (Math_abs dlon) (to_double (1 / 1000000)) then
                 (if js_lt (Math_abs (dbl_sub lat2 lat1)) (to_double (1 / 1000000)) then None
                  else if js_gt lat2 lat1 then Some DirE else Some DirW)
               else if js_gt dlon (Fin 0) then Some DirE else Some DirW))"

section \<open>Finalization and the parser's entry point\<close>

text \<open>
  \<open>finalizeAfterRowsParsed\<close> and \<open>parseFromCSVText\<close> on the global variables. What
  they write to the page (the flight time, the rounded average speed, the callsign of
  the first data row) and the drawing buffer they reset are not part of the state.
\<close>

definition finalizeAfterRowsParsed :: "state \<Rightarrow> state" where
  "finalizeAfterRowsParsed s =
     (let rs = rows s;
          validTimes = filter (\<lambda>r. Number_isFinite (timestampMs r)) rs;
          s1 = (if validTimes \<noteq> []
                then s\<lparr> startTimestampMs := Some (timestampMs (hd validTimes)),
                        endTimestampMs := Some (timestampMs (last validTimes)) \<rparr>
                else s);
          t = takeoffIdx rs;
          l = landingIdx rs;
          s2 = (if t \<ge> 0 then s1\<lparr> actualTakeOffMs := Some (timestampMs (rs ! nat t)) \<rparr> else s1);
          s3 = (if l \<ge> 0 then s2\<lparr> actualLandingMs := Some (timestampMs (rs ! nat l)) \<rparr> else s2);
          s4 = (if length rs \<ge> 2
                then s3\<lparr> trackDir := updateTrackDir (lat (hd rs)) (lon (hd rs))
                                                      (lat (last rs)) (lon (last rs)) \<rparr>
                else s3);
          g = rangeS s4;
          g1 = (if js_seq (altMin g) (altMax g) then g\<lparr> altMax := js_add (altMin g) (Fin 1) \<rparr> else g);
          g2 = (if js_seq (spdMin g1) (spdMax g1) then g1\<lparr> spdMax := js_add (spdMin g1) (Fin 1) \<rparr> else g1)
      in s4\<lparr> rangeS := g2 \<rparr>)"

definition nonblank_lines :: "string \<Rightarrow> string list" where
  "nonblank_lines text = filter (\<lambda>l. length (trim l) \<noteq> 0) (split_lines text [])"

definition parseFromCSVText :: "(string \<Rightarrow> jsnum) \<Rightarrow> string \<Rightarrow> state" where
  "parseFromCSVText num text =
     (if text = [] then resetDataHolders
      else (let lines = nonblank_lines text
            in if lines = [] then resetDataHolders
               else (let ix = resolve_headers (hd lines)
                     in finalizeAfterRowsParsed
                          (foldl (row_pass num ix) resetDataHolders (tl lines)))))"

section \<open>Rosette geometry mapper\<close>

text \<open>
  The drawing library's \<open>constrain\<close> and \<open>map\<close>, as the library defines them, and its
  constants \<open>HALF_PI\<close> and \<open>TWO_PI\<close>.
\<close>

definition constrain :: "jsnum \<Rightarrow> jsnum \<Rightarrow> jsnum \<Rightarrow> jsnum" where
  "constrain n low high = Math_max (Math_min n high) low"

definition p5_map :: "jsnum \<Rightarrow> jsnum \<Rightarrow> jsnum \<Rightarrow> jsnum \<Rightarrow> jsnum \<Rightarrow> bool \<Rightarrow> jsnum" where
  "p5_map n start1 stop1 start2 stop2 withinBounds =
     (let newval = js_add (js_mul (js_div (js_sub n start1) (js_sub stop1 start1))
                                  (js_sub stop2 start2)) start2
      in if \<not> withinBounds then newval
         else if js_lt start2 stop2 then constrain newval start2 stop2
         else constrain newval stop2 start2)"

definition HALF_PI :: jsnum where
  "HALF_PI = Fin (pi / 2)"

definition TWO_PI :: jsnum where
  "TWO_PI = Fin (2 * pi)"

definition UI_margin :: jsnum where
  "UI_margin = Fin 24"

definition timeFracForRow :: "state \<Rightarrow> row \<Rightarrow> jsnum" where
  "timeFracForRow s r =
     js_div (js_sub (timestampMs r) (toNumber (startTimestampMs s)))
            (js_sub (toNumber (endTimestampMs s)) (toNumber (startTimestampMs s)))"

text \<open>The forward convention \<open>angle = HALF_PI + t * TWO_PI\<close> of the point loop.\<close>

definition forward_angle :: "jsnum \<Rightarrow> jsnum" where
  "forward_angle t = js_add HALF_PI (js_mul t TWO_PI)"

record point = row +
  pt_x :: jsnum
  pt_y :: jsnum
  idx :: nat
  angle :: jsnum
  radius :: jsnum

record rosette =
  pts :: "point option list"
  center :: "jsnum \<times> jsnum"
  baseR :: jsnum
  varR :: jsnum

text \<open>
  \<open>buildRosettePoints\<close>, for a canvas of the given \<open>width\<close> and \<open>height\<close>. An element
  of \<open>pts\<close> is a point or \<open>undefined\<close> (\<open>None\<close>): the last statement pushes
  \<open>pts[0]\<close> and \<open>pts[1]\<close>, whatever they are.
\<close>

definition rosette_point ::
  "state \<Rightarrow> jsnum \<times> jsnum \<Rightarrow> jsnum \<Rightarrow> jsnum \<Rightarrow> nat \<Rightarrow> point" where
  "rosette_point s c bR vR i =
     (let r = rows s ! i;
          t = timeFracForRow s r;
          ang = forward_angle t;
          rad = js_add bR (p5_map (alt r) (altMin (rangeS s)) (altMax (rangeS s)) (Fin 0) vR True)
      in \<lparr> lat = lat r, lon = lon r, alt = alt r, spd = spd r, hdg = hdg r, utc = utc r,
           timestampMs = timestampMs r,
           pt_x = js_add (fst c) (js_mul (Math_cos ang) rad),
           pt_y = js_add (snd c) (js_mul (Math_sin ang) rad),
           idx = i, angle = ang, radius = rad \<rparr>)"

definition buildRosettePoints :: "jsnum \<Rightarrow> jsnum \<Rightarrow> state \<Rightarrow> rosette" where
  "buildRosettePoints width height s =
     (let c = (js_mul width (Fin (1 / 2)), js_mul height (Fin (1 / 2)));
          maxRadius = js_sub (js_div (Math_min width height) (Fin 2)) (js_mul UI_margin (Fin 2));
          vR = js_mul maxRadius (Fin (6 / 10));
          bR = js_sub maxRadius vR;
          ps = map (rosette_point s c bR vR) [0 ..< length (rows s)]
      in \<lparr> pts = map Some ps @ [at_index ps 0, at_index ps 1],
           center = c, baseR = bR, varR = vR \<rparr>)"

section \<open>Speed encoder\<close>

type_synonym rgb = "jsnum \<times> jsnum \<times> jsnum"

record band =
  band_min :: jsnum
  band_max :: jsnum
  color :: rgb

definition SPEED_BANDS :: "band list" where
  "SPEED_BANDS =
     [ \<lparr> band_min = Fin 0,   band_max = Fin 40,  color = (Fin 255, Fin 66, Fin 69) \<rparr>,
       \<lparr> band_min = Fin 40,  band_max = Fin 160, color = (Fin 255, Fin 146, Fin 48) \<rparr>,
       \<lparr> band_min = Fin 160, band_max = Fin 300, color = (Fin 48, Fin 209, Fin 88) \<rparr>,
       \<lparr> band_min = Fin 300, band_max = Fin 420, color = (Fin 0, Fin 145, Fin 255) \<rparr>,
       \<lparr> band_min = Fin 420, band_max = Fin 520, color = (Fin 219, Fin 52, Fin 242) \<rparr>,
       \<lparr> band_min = Fin 520, band_max = PInf,    color = (Fin 255, Fin 55, Fin 95) \<rparr> ]"

definition SMOOTH_KT :: jsnum where
  "SMOOTH_KT = Fin 15"

fun lerpRGB :: "rgb \<Rightarrow> rgb \<Rightarrow> jsnum \<Rightarrow> rgb" where
  "lerpRGB (r0, g0, b0) (r1, g1, b1) t =
     (Math_round (js_add r0 (js_mul (js_sub r1 r0) t)),
      Math_round (js_add g0 (js_mul (js_sub g1 g0) t)),
      Math_round (js_add b0 (js_mul (js_sub b1 b0) t)))"

record rgba =
  ch_r :: jsnum
  ch_g :: jsnum
  ch_b :: jsnum
  ch_a :: jsnum

text \<open>The test of the band loop: \<open>spd >= band.min && spd < band.max\<close>.\<close>

definition in_band :: "jsnum \<Rightarrow> nat \<Rightarrow> bool" where
  "in_band v i = (js_ge v (band_min (SPEED_BANDS ! i)) \<and> js_lt v (band_max (SPEED_BANDS ! i)))"

text \<open>The body of the band loop for the band \<open>i\<close> that matched.\<close>

definition band_color :: "jsnum \<Rightarrow> nat \<Rightarrow> rgb" where
  "band_color v i =
     (let bnd = SPEED_BANDS ! i;
          gradientColor0 = color bnd;
          gradientColor1 =
            (if i > 0 then
               (let distFromMin = js_sub v (band_min bnd)
                in if js_lt distFromMin SMOOTH_KT then
                     (let prevColor = color (SPEED_BANDS ! (i - 1));
                          avgColor = lerpRGB prevColor (color bnd) (Fin (1 / 2));
                          t = constrain (js_div distFromMin SMOOTH_KT) (Fin 0) (Fin 1)
                      in lerpRGB avgColor (color bnd) t)
                   else gradientColor0)
             else gradientColor0)
      in if i < length SPEED_BANDS - 1 \<and> Number_isFinite (band_max bnd) then
           (let distToMax = js_sub (band_max bnd) v
            in if js_lt distToMax SMOOTH_KT then
                 (let nextColor = color (SPEED_BANDS ! (i + 1));
                      avgColor = lerpRGB (color bnd) nextColor (Fin (1 / 2));
                      t = constrain (js_sub (Fin 1) (js_div distToMax SMOOTH_KT)) (Fin 0) (Fin 1)
                  in lerpRGB gradientColor1 avgColor t)
               else gradientColor1)
         else gradientColor1)"

definition speedColor :: "jsnum \<Rightarrow> rgba" where
  "speedColor v =
     (case find (in_band v) [0 ..< length SPEED_BANDS] of
        Some i \<Rightarrow>
          (case band_color v i of
             (cr, cg, cb) \<Rightarrow> \<lparr> ch_r = cr, ch_g = cg, ch_b = cb, ch_a = Fin 100 \<rparr>)
      | None \<Rightarrow>
          (case color (SPEED_BANDS ! (length SPEED_BANDS - 1)) of
             (cr, cg, cb) \<Rightarrow> \<lparr> ch_r = cr, ch_g = cg, ch_b = cb, ch_a = Fin 92 \<rparr>))"

section \<open>Pointer-to-sample resolver\<close>

text \<open>
  \<open>getIndexFromMouse\<close>, from the value \<open>ang\<close> that \<open>Math.atan2\<close> returned for the
  pointer. First the inversion of the forward angle convention.
\<close>

definition angle_to_fraction :: "jsnum \<Rightarrow> jsnum" where
  "angle_to_fraction ang =
     (let t0 = js_rem (js_sub ang HALF_PI) TWO_PI;
          t1 = (if js_lt t0 (Fin 0) then js_add t0 TWO_PI else t0)
      in js_div t1 TWO_PI)"

definition target_time :: "state \<Rightarrow> jsnum \<Rightarrow> jsnum" where
  "target_time s t =
     js_add (toNumber (startTimestampMs s))
            (js_mul t (js_sub (toNumber (endTimestampMs s)) (toNumber (startTimestampMs s))))"

text \<open>One pass of the nearest-timestamp loop on the pair \<open>(bestIdx, bestDiff)\<close>.\<close>

definition nearest_pass :: "row list \<Rightarrow> jsnum \<Rightarrow> nat \<times> jsnum \<Rightarrow> nat \<Rightarrow> nat \<times> jsnum" where
  "nearest_pass rs target best i =
     (let d = Math_abs (js_sub (timestampMs (rs ! i)) target)
      in if js_lt d (snd best) then (i, d) else best)"

definition getIndexFromMouse :: "jsnum \<Rightarrow> jsnum \<Rightarrow> state \<Rightarrow> jsnum" where
  "getIndexFromMouse ang count s =
     (let t = angle_to_fraction ang;
          target = target_time s t;
          (bestIdx, bestDiff) = foldl (nearest_pass (rows s) target) (0, PInf) [0 ..< length (rows s)]
      in if js_sne bestDiff PInf then constrain (Fin (real bestIdx)) (Fin 0) (js_sub count (Fin 1))
         else constrain (Math_round (js_mul t (js_sub count (Fin 1)))) (Fin 0) (js_sub count (Fin 1)))"

section \<open>Notions of the specification\<close>

subsection \<open>A conversion for the examples\<close>

text \<open>
  The examples need one conversion to put in place of the parameter \<open>num\<close>. This one
  reads an optionally signed decimal numeral (digits, a point, digits) as \<open>Number\<close>
  does, gives \<open>0\<close> for a blank string and NaN for everything else; it stands for
  \<open>Number\<close> only on strings of these kinds.
\<close>

definition digit_of :: "char \<Rightarrow> nat option" where
  "digit_of c = (let n = (of_char c :: nat) in if 48 \<le> n \<and> n \<le> 57 then Some (n - 48) else None)"

fun digits_value :: "string \<Rightarrow> nat \<Rightarrow> nat option" where
  "digits_value [] acc = Some acc"
| "digits_value (c # cs) acc =
     (case digit_of c of None \<Rightarrow> None | Some d \<Rightarrow> digits_value cs (10 * acc + d))"

definition decimal_num :: "string \<Rightarrow> jsnum" where
  "decimal_num s0 =
     (let s = trim s0;
          neg = (s \<noteq> [] \<and> hd s = CHR ''-'');
          body = (if s \<noteq> [] \<and> (hd s = CHR ''-'' \<or> hd s = CHR ''+'') then tl s else s);
          ip = takeWhile (\<lambda>c. c \<noteq> CHR ''.'') body;
          rest = dropWhile (\<lambda>c. c \<noteq> CHR ''.'') body;
          fp = (if rest = [] then [] else tl rest)
      in if s = [] then Fin 0
         else if ip = [] \<and> fp = [] then NaN
         else (case (digits_value ip 0, digits_value fp 0) of
                 (Some a, Some b) \<Rightarrow>
                   Fin ((if neg then - 1 else 1) * (real a + real b / 10 ^ length fp))
               | _ \<Rightarrow> NaN))"

subsection \<open>Dropped rows\<close>

text \<open>
  A row whose Position field is missing or empty after unquoting; and a malformed row in
  the wider sense of the specification, which adds the rows whose Position does not split
  at commas into exactly two parts.
\<close>

definition position_empty :: "header_idx \<Rightarrow> string \<Rightarrow> bool" where
  "position_empty ix line =
     (case position_field ix (splitCSVLine line) of None \<Rightarrow> True | Some p \<Rightarrow> p = [])"

definition malformed_row :: "header_idx \<Rightarrow> string \<Rightarrow> bool" where
  "malformed_row ix line =
     (case position_field ix (splitCSVLine line) of
        None \<Rightarrow> True
      | Some p \<Rightarrow> p = [] \<or> length (split_comma p []) \<noteq> 2)"

text \<open>
  A file of four non-blank lines (and a blank one): a header, two rows with a position
  and one row without.
\<close>

definition csv_three_rows :: string where
  "csv_three_rows =
     ''Altitude,Position'' @ [CHR 0x0A] @
     ''100,'' @ [dquote] @ ''45.5,9.1'' @ [dquote] @ [CHR 0x0D, CHR 0x0A] @
     ''200,'' @ [CHR 0x0A] @ [CHR 0x0A] @
     ''300,'' @ [dquote] @ ''46,9.5'' @ [dquote]"

text \<open>A file whose only data row has a Position without a comma.\<close>

definition csv_no_comma :: string where
  "csv_no_comma = ''Position'' @ [CHR 0x0A] @ ''abc''"

subsection \<open>Range tracking\<close>

text \<open>The finite values of a list of numbers, and a range whose four ends are finite.\<close>

fun fin_values :: "jsnum list \<Rightarrow> real list" where
  "fin_values [] = []"
| "fin_values (Fin a # xs) = a # fin_values xs"
| "fin_values (_ # xs) = fin_values xs"

definition fin_range :: "range_t \<Rightarrow> real \<Rightarrow> real \<Rightarrow> real \<Rightarrow> real \<Rightarrow> bool" where
  "fin_range g a0 a1 s0 s1 \<longleftrightarrow>
     altMin g = Fin a0 \<and> altMax g = Fin a1 \<and> spdMin g = Fin s0 \<and> spdMax g = Fin s1"

text \<open>A sample with the given altitude, speed and timestamp and nothing else.\<close>

definition sample :: "jsnum \<Rightarrow> jsnum \<Rightarrow> jsnum \<Rightarrow> row" where
  "sample a v t =
     \<lparr> lat = NaN, lon = NaN, alt = a, spd = v, hdg = NaN, utc = [], timestampMs = t \<rparr>"

text \<open>Three samples at 35000 feet and 450 knots, the middle one without either value.\<close>

definition level_flight :: "row list" where
  "level_flight =
     [sample (Fin 35000) (Fin 450) (Fin 1000), sample NaN NaN (Fin 2000),
      sample (Fin 35000) (Fin 450) (Fin 3000)]"

text \<open>The state after the samples are ingested and finalized.\<close>

definition track_of :: "row list \<Rightarrow> state" where
  "track_of samples = finalizeAfterRowsParsed (foldl ingest resetDataHolders samples)"

text \<open>A track of a single sample.\<close>

definition single_sample :: "row list" where
  "single_sample = [sample (Fin 100) (Fin 200) (Fin 0)]"

text \<open>A file with one sample, at an altitude of two thousand million feet.\<close>

definition high_altitude_line :: string where
  "high_altitude_line = ''2000000000,'' @ [dquote] @ ''45,9'' @ [dquote]"

definition csv_high_altitude :: string where
  "csv_high_altitude = ''Altitude,Position'' @ [CHR 0x0A] @ high_altitude_line"

subsection \<open>Flight phase\<close>

text \<open>
  The altitude sequence of the specification's example, one second apart.
\<close>

definition phase_example :: "row list" where
  "phase_example =
     map (\<lambda>(a, t). sample (Fin a) NaN (Fin t))
       [(0, 1000), (0, 2000), (150, 3000), (300, 4000), (150, 5000), (0, 6000), (0, 7000)]"

subsection \<open>Time-weighted average speed\<close>

text \<open>
  The average as the specification words it: over the adjacent pairs of the span, a pair
  \<open>(a, b)\<close> contributes \<open>0.5 * (a.speed + b.speed) * dt\<close> to the weighted sum and
  \<open>dt\<close> to the total duration when the test \<open>contrib\<close> holds of it; the result is the
  quotient when the total duration is positive. The test of the specification is
  \<open>contributes_as_claimed\<close>; \<open>contributes\<close> also asks for finite timestamps.
\<close>

definition segment_dt :: "row \<Rightarrow> row \<Rightarrow> jsnum" where
  "segment_dt a b = js_div (js_sub (timestampMs b) (timestampMs a)) (Fin 1000)"

definition contributes_as_claimed :: "row \<Rightarrow> row \<Rightarrow> bool" where
  "contributes_as_claimed a b \<longleftrightarrow>
     js_gt (segment_dt a b) (Fin 0)
     \<and> Number_isFinite (alt a) \<and> js_gt (alt a) (Fin 0)
     \<and> Number_isFinite (alt b) \<and> js_gt (alt b) (Fin 0)
     \<and> Number_isFinite (spd a) \<and> Number_isFinite (spd b)"

definition contributes :: "row \<Rightarrow> row \<Rightarrow> bool" where
  "contributes a b \<longleftrightarrow>
     Number_isFinite (timestampMs a) \<and> Number_isFinite (timestampMs b)
     \<and> contributes_as_claimed a b"

definition js_sum :: "jsnum list \<Rightarrow> jsnum" where
  "js_sum xs = foldl js_add (Fin 0) xs"

definition weighted_average :: "(row \<Rightarrow> row \<Rightarrow> bool) \<Rightarrow> row list \<Rightarrow> nat \<Rightarrow> nat \<Rightarrow> jsnum option" where
  "weighted_average contrib rs iStart iEnd =
     (let segs = filter (\<lambda>i. contrib (rs ! i) (rs ! (i + 1))) [iStart ..< iEnd];
          weightedSum =
            js_sum (map (\<lambda>i. js_mul (js_mul (Fin (1 / 2)) (js_add (spd (rs ! i)) (spd (rs ! (i + 1)))))
                                    (segment_dt (rs ! i) (rs ! (i + 1)))) segs);
          totalDuration = js_sum (map (\<lambda>i. segment_dt (rs ! i) (rs ! (i + 1))) segs)
      in if js_gt totalDuration (Fin 0) then Some (js_div weightedSum totalDuration) else None)"

text \<open>
  A flight of five samples: on the ground, three samples in the air, on the ground again.
  And three airborne samples, the middle one with an infinite timestamp.
\<close>

definition short_flight :: "row list" where
  "short_flight =
     [sample (Fin 0) (Fin 10) (Fin 0), sample (Fin 100) (Fin 100) (Fin 10000),
      sample (Fin 200) (Fin 200) (Fin 30000), sample (Fin 100) (Fin 160) (Fin 40000),
      sample (Fin 0) (Fin 10) (Fin 50000)]"

definition infinite_time_flight :: "row list" where
  "infinite_time_flight =
     [sample (Fin 100) (Fin 200) (Fin 0), sample (Fin 100) (Fin 200) PInf,
      sample (Fin 100) (Fin 200) (Fin 10000)]"

subsection \<open>Direction thresholds\<close>



subsection \<open>Nearest sample\<close>

text \<open>
  The distance in time of sample \<open>j\<close> from the target time of the fraction \<open>t\<close>, and a
  sample that is the unique closest one: its distance is finite and no other sample is
  as close.
\<close>

definition time_distance :: "state \<Rightarrow> jsnum \<Rightarrow> nat \<Rightarrow> jsnum" where
  "time_distance s t j = Math_abs (js_sub (timestampMs (rows s ! j)) (target_time s t))"

definition unique_closest :: "state \<Rightarrow> jsnum \<Rightarrow> nat \<Rightarrow> bool" where
  "unique_closest s t i \<longleftrightarrow>
     i < length (rows s) \<and> Number_isFinite (time_distance s t i)
     \<and> list_all (\<lambda>j. j = i \<or> \<not> js_le (time_distance s t j) (time_distance s t i))
          [0 ..< length (rows s)]"

section \<open>Properties of the CSV record parser\<close>

lemma splitCSVLine_loop_nonempty: "splitCSVLine_loop line out cur q \<noteq> []"
  by (induction line out cur q rule: splitCSVLine_loop.induct) auto

lemma splitCSVLine_nonempty: "splitCSVLine line \<noteq> []"
  by (simp add: splitCSVLine_def splitCSVLine_loop_nonempty)

text \<open>
  C10. For every line, the empty one too, \<open>splitCSVLine\<close> returns at least one field,
  so the test \<open>!cols.length\<close> of the row loop never holds.
\<close>

theorem C10_split_has_a_field:
  "length (splitCSVLine line) \<ge> 1 \<and> \<not> no_columns (splitCSVLine line)"
  using splitCSVLine_nonempty [of line] by (simp add: no_columns_def Suc_le_eq)

lemma rows_finalize: "rows (finalizeAfterRowsParsed s) = rows s"
  by (simp add: finalizeAfterRowsParsed_def Let_def)

lemma rows_ingest: "rows (ingest s r) = rows s @ [r]"
  by (simp add: ingest_def Let_def)

lemma rows_row_pass:
  "rows (row_pass num ix s line) =
     rows s @ (case parseRow num ix line of None \<Rightarrow> [] | Some r \<Rightarrow> [r])"
  by (simp add: row_pass_def rows_ingest split: option.splits)

lemma rows_foldl_row_pass:
  "rows (foldl (row_pass num ix) s ls) = rows s @ List.map_filter (parseRow num ix) ls"
  by (induction ls arbitrary: s) (auto simp: rows_row_pass split: option.splits)

lemma parseRow_None_iff: "parseRow num ix line = None \<longleftrightarrow> position_empty ix line"
proof -
  have "\<not> no_columns (splitCSVLine line)"
    using splitCSVLine_nonempty [of line] by (simp add: no_columns_def)
  then show ?thesis
    by (cases "position_field ix (splitCSVLine line)")
       (auto simp: parseRow_def position_empty_def Let_def)
qed

lemma length_map_filter_plus:
  "length (List.map_filter f xs) + length (filter (\<lambda>x. f x = None) xs) = length xs"
  by (induction xs) (auto split: option.splits)

text \<open>
  C1, as the code has it. The samples are the rows of the data lines, in order, without
  the rows that the row loop skips; it skips a row exactly when the Position field is
  missing or empty after unquoting; so \<open>N\<close> non-blank lines, one of them the header, with
  \<open>K\<close> such rows give \<open>N - 1 - K\<close> samples. A Position that does not split into two
  parts is no reason to skip.
\<close>

theorem C1_rows_dropped_iff_position_empty:
  assumes "nonblank_lines text \<noteq> []"
  shows "rows (parseFromCSVText num text) =
           List.map_filter (parseRow num (resolve_headers (hd (nonblank_lines text))))
             (tl (nonblank_lines text))
         \<and> (\<forall>line ix. parseRow num ix line = None \<longleftrightarrow> position_empty ix line)
         \<and> length (rows (parseFromCSVText num text)) + 1
             + length (filter (position_empty (resolve_headers (hd (nonblank_lines text))))
                        (tl (nonblank_lines text)))
           = length (nonblank_lines text)"
proof -
  let ?ls = "nonblank_lines text"
  let ?ix = "resolve_headers (hd ?ls)"
  have t: "text \<noteq> []"
    using assms by (auto simp: nonblank_lines_def trim_def)
  have r: "rows (parseFromCSVText num text) = List.map_filter (parseRow num ?ix) (tl ?ls)"
    using assms t
    by (simp add: parseFromCSVText_def Let_def rows_finalize rows_foldl_row_pass
        resetDataHolders_def)
  have "length (List.map_filter (parseRow num ?ix) (tl ?ls))
          + length (filter (position_empty ?ix) (tl ?ls)) = length (tl ?ls)"
    using length_map_filter_plus [of "parseRow num ?ix" "tl ?ls"]
    by (simp add: parseRow_None_iff)
  moreover have "length (tl ?ls) + 1 = length ?ls"
    using assms by (cases ?ls) auto
  ultimately show ?thesis
    using r by (simp add: parseRow_None_iff)
qed

lemma nonblank_csv_three_rows:
  "nonblank_lines csv_three_rows =
     [''Altitude,Position'', ''100,'' @ [dquote] @ ''45.5,9.1'' @ [dquote],
      ''200,'', ''300,'' @ [dquote] @ ''46,9.5'' @ [dquote]]"
  by (simp add: csv_three_rows_def nonblank_lines_def trim_def js_space_def dquote_def)

lemma empty_positions_csv_three_rows:
  "length (filter (position_empty (resolve_headers (hd (nonblank_lines csv_three_rows))))
             (tl (nonblank_lines csv_three_rows))) = 1"
  by (simp add: nonblank_csv_three_rows position_empty_def position_field_def
      resolve_headers_def splitCSVLine_def findIdx_def toLowerCase_def toLowerChar_def
      trim_def js_space_def col_def at_index_def dquote_def comma_def)

text \<open>
  The theorem at a file of four non-blank lines with one row without a position: two
  samples.
\<close>

theorem C1_witness:
  "nonblank_lines csv_three_rows \<noteq> []
   \<and> length (nonblank_lines csv_three_rows) = 4
   \<and> length (filter (position_empty (resolve_headers (hd (nonblank_lines csv_three_rows))))
                (tl (nonblank_lines csv_three_rows))) = 1
   \<and> length (rows (parseFromCSVText decimal_num csv_three_rows)) = 2"
proof -
  have a: "nonblank_lines csv_three_rows \<noteq> []"
    by (simp add: nonblank_csv_three_rows)
  have n: "length (nonblank_lines csv_three_rows) = 4"
    by (simp add: nonblank_csv_three_rows)
  from C1_rows_dropped_iff_position_empty [OF a, of decimal_num]
  have "length (rows (parseFromCSVText decimal_num csv_three_rows)) + 1
          + length (filter (position_empty (resolve_headers (hd (nonblank_lines csv_three_rows))))
                     (tl (nonblank_lines csv_three_rows)))
        = length (nonblank_lines csv_three_rows)"
    by blast
  with n empty_positions_csv_three_rows
  have "length (rows (parseFromCSVText decimal_num csv_three_rows)) = 2"
    by simp
  with a n empty_positions_csv_three_rows show ?thesis
    by simp
qed

text \<open>
  The claim as the specification words it fails on a Position without a comma: the file
  has two non-blank lines, its one data row is malformed in the sense of the
  specification, and the row is kept all the same, so there is one sample and not none.
\<close>

theorem C1_counterexample:
  "nonblank_lines csv_no_comma = [''Position'', ''abc'']
   \<and> malformed_row (resolve_headers ''Position'') ''abc''
   \<and> parseRow decimal_num (resolve_headers ''Position'') ''abc'' \<noteq> None
   \<and> length (rows (parseFromCSVText decimal_num csv_no_comma)) = 1"
  by (simp add: csv_no_comma_def parseFromCSVText_def nonblank_lines_def trim_def js_space_def
      resolve_headers_def splitCSVLine_def dquote_def comma_def findIdx_def toLowerCase_def
      toLowerChar_def row_pass_def parseRow_def no_columns_def position_field_def col_def
      at_index_def ingest_def resetDataHolders_def finalizeAfterRowsParsed_def Let_def
      malformed_row_def)

section \<open>Properties of the flight-phase detector\<close>

text \<open>What the two scanning loops return, for a default that is negative.\<close>

lemma scan_up_int_iff:
  "d < 0 \<Longrightarrow> scan_up p i n d = int k \<longleftrightarrow> (i \<le> k \<and> k < n \<and> p k \<and> (\<forall>j. i \<le> j \<and> j < k \<longrightarrow> \<not> p j))"
proof (induction p i n d rule: scan_up.induct)
  case (1 p i n d)
  show ?case
  proof (cases "i < n")
    case False
    with "1.prems" show ?thesis
      by (subst scan_up.simps) auto
  next
    case True
    show ?thesis
    proof (cases "p i")
      case True
      with \<open>i < n\<close> show ?thesis
        by (subst scan_up.simps) (auto simp: not_less dest: le_neq_implies_less)
    next
      case False
      have "scan_up p i n d = scan_up p (Suc i) n d"
        using \<open>i < n\<close> False by (subst scan_up.simps) simp
      moreover have "(i \<le> k \<and> k < n \<and> p k \<and> (\<forall>j. i \<le> j \<and> j < k \<longrightarrow> \<not> p j))
         \<longleftrightarrow> (Suc i \<le> k \<and> k < n \<and> p k \<and> (\<forall>j. Suc i \<le> j \<and> j < k \<longrightarrow> \<not> p j))"
        using False by (metis Suc_leD Suc_leI le_neq_implies_less)
      ultimately show ?thesis
        using "1.IH" [OF \<open>i < n\<close> False "1.prems"] by simp
    qed
  qed
qed

lemma scan_up_default_iff:
  "d < 0 \<Longrightarrow> scan_up p i n d = d \<longleftrightarrow> (\<forall>j. i \<le> j \<and> j < n \<longrightarrow> \<not> p j)"
proof (induction p i n d rule: scan_up.induct)
  case (1 p i n d)
  show ?case
  proof (cases "i < n")
    case False
    then show ?thesis
      by (subst scan_up.simps) auto
  next
    case True
    show ?thesis
    proof (cases "p i")
      case True
      with \<open>i < n\<close> "1.prems" show ?thesis
        by (subst scan_up.simps) auto
    next
      case False
      have "scan_up p i n d = scan_up p (Suc i) n d"
        using \<open>i < n\<close> False by (subst scan_up.simps) simp
      moreover have "(\<forall>j. i \<le> j \<and> j < n \<longrightarrow> \<not> p j) \<longleftrightarrow> (\<forall>j. Suc i \<le> j \<and> j < n \<longrightarrow> \<not> p j)"
        using False by (metis Suc_leD Suc_leI le_neq_implies_less)
      ultimately show ?thesis
        using "1.IH" [OF \<open>i < n\<close> False "1.prems"] by simp
    qed
  qed
qed

lemma scan_up_range: "d < 0 \<Longrightarrow> scan_up p i n d = d \<or> (\<exists>k. scan_up p i n d = int k)"
  by (induction p i n d rule: scan_up.induct) (subst (1 2) scan_up.simps, auto)


lemma takeoffIdx_int_iff:
  "takeoffIdx rs = int i \<longleftrightarrow>
     (i < length rs \<and> airborne (rs ! i) \<and> (\<forall>j<i. \<not> airborne (rs ! j)))"
  by (simp add: takeoffIdx_def scan_up_int_iff)

lemma takeoffIdx_none_iff:
  "takeoffIdx rs = - 1 \<longleftrightarrow> (\<forall>i<length rs. \<not> airborne (rs ! i))"
  using scan_up_default_iff [of "- 1" "\<lambda>i. airborne (rs ! i)" 0 "length rs"]
  by (simp add: takeoffIdx_def)

lemma takeoffIdx_cases: "takeoffIdx rs = - 1 \<or> (\<exists>i. takeoffIdx rs = int i)"
  using scan_up_range [of "- 1" "\<lambda>i. airborne (rs ! i)" 0 "length rs"]
  by (simp add: takeoffIdx_def)

lemma landingIdx_int_iff:
  "landingIdx rs = int j \<longleftrightarrow>
     (\<exists>i. takeoffIdx rs = int i \<and> i < j \<and> j < length rs \<and> touchdown rs j \<and>
          (\<forall>k. i < k \<and> k < j \<longrightarrow> \<not> touchdown rs k))"
proof (cases "takeoffIdx rs = - 1")
  case True
  then show ?thesis by (simp add: landingIdx_def)
next
  case False
  then obtain i where i: "takeoffIdx rs = int i"
    using takeoffIdx_cases [of rs] by auto
  have "landingIdx rs = scan_up (touchdown rs) (Suc i) (length rs) (- 1)"
    by (simp add: landingIdx_def i)
  then show ?thesis
    by (simp add: i scan_up_int_iff Suc_le_eq)
qed

lemma landingIdx_none_iff:
  "landingIdx rs = - 1 \<longleftrightarrow> (\<forall>j. landingIdx rs \<noteq> int j)"
proof (cases "takeoffIdx rs = - 1")
  case True
  then show ?thesis by (simp add: landingIdx_def)
next
  case False
  then obtain i where i: "takeoffIdx rs = int i"
    using takeoffIdx_cases [of rs] by auto
  have "landingIdx rs = scan_up (touchdown rs) (Suc i) (length rs) (- 1)"
    by (simp add: landingIdx_def i)
  then show ?thesis
    using scan_up_range [of "- 1" "touchdown rs" "Suc i" "length rs"] by auto
qed

lemma example_phase:
  assumes a: "map alt rs = map Fin [0, 0, 150, 300, 150, 0, 0]"
    and t: "\<forall>r\<in>set rs. Number_isFinite (timestampMs r)"
  shows "takeoffIdx rs = 2 \<and> landingIdx rs = 5"
proof -
  have len: "length rs = 7"
    using arg_cong [OF a, of length] by simp
  have alts: "alt (rs ! 0) = Fin 0" "alt (rs ! 1) = Fin 0" "alt (rs ! 2) = Fin 150"
    "alt (rs ! 3) = Fin 300" "alt (rs ! 4) = Fin 150" "alt (rs ! 5) = Fin 0"
    using arg_cong [OF a, of "\<lambda>xs. xs ! 0"] arg_cong [OF a, of "\<lambda>xs. xs ! 1"]
      arg_cong [OF a, of "\<lambda>xs. xs ! 2"] arg_cong [OF a, of "\<lambda>xs. xs ! 3"]
      arg_cong [OF a, of "\<lambda>xs. xs ! 4"] arg_cong [OF a, of "\<lambda>xs. xs ! 5"] len
    by simp_all
  have ts: "\<And>i. i < 7 \<Longrightarrow> Number_isFinite (timestampMs (rs ! i))"
    using t len by simp
  have "takeoffIdx rs = int 2"
    unfolding takeoffIdx_int_iff
    using len alts ts [of 2] by (auto simp: airborne_def js_gt_def less_Suc_eq numeral_2_eq_2)
  moreover have "landingIdx rs = int 5"
    unfolding landingIdx_int_iff
  proof (intro exI [of _ 2] conjI allI impI)
    show "takeoffIdx rs = int 2" by fact
    show "touchdown rs 5"
      using alts ts [of 5] by (simp add: touchdown_def js_sne_def)
    fix k :: nat assume "2 < k \<and> k < 5"
    then have "k = 3 \<or> k = 4" by auto
    then show "\<not> touchdown rs k"
      using alts by (auto simp: touchdown_def)
  qed (simp_all add: len)
  ultimately show ?thesis by simp
qed

text \<open>
  C3. The takeoff index is the first index whose sample has a finite timestamp and a
  finite altitude above zero (\<open>-1\<close>, for none, when there is no such index). The landing
  index is the first index after the takeoff index where the altitude before is finite
  and not zero, the altitude is finite and zero, and the timestamp is finite (\<open>-1\<close> when
  there is none, or no takeoff). For the altitudes \<open>0, 0, 150, 300, 150, 0, 0\<close> with
  finite timestamps, increasing or not, the indices are 2 and 5.
\<close>

theorem C3_takeoff_and_landing_index:
  "(\<forall>i. takeoffIdx rs = int i \<longleftrightarrow>
        i < length rs
        \<and> Number_isFinite (timestampMs (rs ! i)) \<and> Number_isFinite (alt (rs ! i))
        \<and> js_gt (alt (rs ! i)) (Fin 0)
        \<and> (\<forall>j<i. \<not> (Number_isFinite (timestampMs (rs ! j)) \<and> Number_isFinite (alt (rs ! j))
                      \<and> js_gt (alt (rs ! j)) (Fin 0))))
   \<and> (takeoffIdx rs = - 1 \<longleftrightarrow> (\<forall>i. takeoffIdx rs \<noteq> int i))
   \<and> (\<forall>j. landingIdx rs = int j \<longleftrightarrow>
        (\<exists>i. takeoffIdx rs = int i \<and> i < j \<and> j < length rs
          \<and> Number_isFinite (alt (rs ! (j - 1))) \<and> js_sne (alt (rs ! (j - 1))) (Fin 0)
          \<and> Number_isFinite (alt (rs ! j)) \<and> js_seq (alt (rs ! j)) (Fin 0)
          \<and> Number_isFinite (timestampMs (rs ! j))
          \<and> (\<forall>k. i < k \<and> k < j \<longrightarrow>
                \<not> (Number_isFinite (alt (rs ! (k - 1))) \<and> js_sne (alt (rs ! (k - 1))) (Fin 0)
                   \<and> Number_isFinite (alt (rs ! k)) \<and> js_seq (alt (rs ! k)) (Fin 0)
                   \<and> Number_isFinite (timestampMs (rs ! k))))))
   \<and> (landingIdx rs = - 1 \<longleftrightarrow> (\<forall>j. landingIdx rs \<noteq> int j))
   \<and> (map alt rs = map Fin [0, 0, 150, 300, 150, 0, 0]
        \<and> (\<forall>r\<in>set rs. Number_isFinite (timestampMs r))
      \<longrightarrow> takeoffIdx rs = 2 \<and> landingIdx rs = 5)"
proof (intro conjI)
  show "\<forall>i. takeoffIdx rs = int i \<longleftrightarrow>
        i < length rs
        \<and> Number_isFinite (timestampMs (rs ! i)) \<and> Number_isFinite (alt (rs ! i))
        \<and> js_gt (alt (rs ! i)) (Fin 0)
        \<and> (\<forall>j<i. \<not> (Number_isFinite (timestampMs (rs ! j)) \<and> Number_isFinite (alt (rs ! j))
                      \<and> js_gt (alt (rs ! j)) (Fin 0)))"
    by (simp add: takeoffIdx_int_iff airborne_def)
  show "takeoffIdx rs = - 1 \<longleftrightarrow> (\<forall>i. takeoffIdx rs \<noteq> int i)"
    using takeoffIdx_cases [of rs] by auto
  show "\<forall>j. landingIdx rs = int j \<longleftrightarrow>
        (\<exists>i. takeoffIdx rs = int i \<and> i < j \<and> j < length rs
          \<and> Number_isFinite (alt (rs ! (j - 1))) \<and> js_sne (alt (rs ! (j - 1))) (Fin 0)
          \<and> Number_isFinite (alt (rs ! j)) \<and> js_seq (alt (rs ! j)) (Fin 0)
          \<and> Number_isFinite (timestampMs (rs ! j))
          \<and> (\<forall>k. i < k \<and> k < j \<longrightarrow>
                \<not> (Number_isFinite (alt (rs ! (k - 1))) \<and> js_sne (alt (rs ! (k - 1))) (Fin 0)
                   \<and> Number_isFinite (alt (rs ! k)) \<and> js_seq (alt (rs ! k)) (Fin 0)
                   \<and> Number_isFinite (timestampMs (rs ! k)))))"
    unfolding landingIdx_int_iff touchdown_def Let_def by (intro allI) (rule iffI; elim exE; rule exI; blast)
  show "landingIdx rs = - 1 \<longleftrightarrow> (\<forall>j. landingIdx rs \<noteq> int j)"
    by (rule landingIdx_none_iff)
  show "map alt rs = map Fin [0, 0, 150, 300, 150, 0, 0]
        \<and> (\<forall>r\<in>set rs. Number_isFinite (timestampMs r))
      \<longrightarrow> takeoffIdx rs = 2 \<and> landingIdx rs = 5"
    using example_phase [of rs] by blast
qed

text \<open>The theorem at the example, with timestamps one second apart.\<close>

theorem C3_witness:
  "map alt phase_example = map Fin [0, 0, 150, 300, 150, 0, 0]
   \<and> list_all (\<lambda>r. Number_isFinite (timestampMs r)) phase_example
   \<and> takeoffIdx phase_example = 2 \<and> landingIdx phase_example = 5"
proof -
  have a: "map alt phase_example = map Fin [0, 0, 150, 300, 150, 0, 0]"
    by (simp add: phase_example_def sample_def)
  have t: "\<forall>r\<in>set phase_example. Number_isFinite (timestampMs r)"
    by (simp add: phase_example_def sample_def)
  from C3_takeoff_and_landing_index [of phase_example] a t
  have "takeoffIdx phase_example = 2 \<and> landingIdx phase_example = 5"
    by blast
  with a t show ?thesis
    by (simp add: list_all_iff)
qed

section \<open>Properties of the track builder\<close>

lemma foldl_min_le: "foldl min lo xs \<le> (lo::real)"
proof (induction xs arbitrary: lo)
  case Nil
  show ?case by simp
next
  case (Cons a xs)
  have "foldl min (min lo a) xs \<le> min lo a" by (rule Cons.IH)
  also have "\<dots> \<le> lo" by simp
  finally show ?case by simp
qed

lemma foldl_min_le_mem: "x \<in> set xs \<Longrightarrow> foldl min lo xs \<le> (x::real)"
proof (induction xs arbitrary: lo)
  case Nil
  then show ?case by simp
next
  case (Cons a xs)
  show ?case
  proof (cases "x = a")
    case True
    have "foldl min (min lo a) xs \<le> min lo a" by (rule foldl_min_le)
    also have "\<dots> \<le> a" by simp
    finally show ?thesis using True by simp
  next
    case False
    with Cons.prems have "x \<in> set xs" by simp
    from Cons.IH [OF this] show ?thesis by simp
  qed
qed

lemma foldl_max_ge: "(hi::real) \<le> foldl max hi xs"
proof (induction xs arbitrary: hi)
  case Nil
  show ?case by simp
next
  case (Cons a xs)
  have "hi \<le> max hi a" by simp
  also have "\<dots> \<le> foldl max (max hi a) xs" by (rule Cons.IH)
  finally show ?case by simp
qed

lemma foldl_max_ge_mem: "x \<in> set xs \<Longrightarrow> (x::real) \<le> foldl max hi xs"
proof (induction xs arbitrary: hi)
  case Nil
  then show ?case by simp
next
  case (Cons a xs)
  show ?case
  proof (cases "x = a")
    case True
    have "a \<le> max hi a" by simp
    also have "\<dots> \<le> foldl max (max hi a) xs" by (rule foldl_max_ge)
    finally show ?thesis using True by simp
  next
    case False
    with Cons.prems have "x \<in> set xs" by simp
    from Cons.IH [OF this] show ?thesis by simp
  qed
qed

lemma foldl_min_const: "set xs \<subseteq> {c} \<Longrightarrow> foldl min lo xs = (if xs = [] then lo else min lo (c::real))"
  by (induction xs arbitrary: lo) (auto simp: min_def)

lemma foldl_max_const: "set xs \<subseteq> {c} \<Longrightarrow> foldl max hi xs = (if xs = [] then hi else max hi (c::real))"
  by (induction xs arbitrary: hi) (auto simp: max_def)

lemma Math_min_Fin: "Math_min (Fin a) (Fin b) = Fin (min a b)"
  by (simp add: min_def)

lemma Math_max_Fin: "Math_max (Fin a) (Fin b) = Fin (max a b)"
  by (simp add: max_def)

lemma set_fin_values: "x \<in> set (fin_values ys) \<longleftrightarrow> Fin x \<in> set ys"
  by (induction ys rule: fin_values.induct) auto

lemma rangeS_ingest:
  assumes "fin_range (rangeS s) a0 a1 s0 s1"
  shows "fin_range (rangeS (ingest s r))
           (foldl min a0 (fin_values [alt r])) (foldl max a1 (fin_values [alt r]))
           (foldl min s0 (fin_values [spd r])) (foldl max s1 (fin_values [spd r]))"
proof -
  obtain g where g: "rangeS s = g" by simp
  with assms have a: "altMin g = Fin a0" "altMax g = Fin a1" "spdMin g = Fin s0" "spdMax g = Fin s1"
    by (simp_all add: fin_range_def)
  show ?thesis
    unfolding fin_range_def ingest_def Let_def g
    by (cases "alt r"; cases "spd r") (simp_all add: a Math_min_Fin Math_max_Fin)
qed

lemma foldl_fin_values_Cons:
  "foldl f a (fin_values (map h (r # rs))) = foldl f (foldl f a (fin_values [h r])) (fin_values (map h rs))"
  by (cases "h r") simp_all

lemma rangeS_foldl_ingest:
  assumes "fin_range (rangeS s) a0 a1 s0 s1"
  shows "fin_range (rangeS (foldl ingest s rs))
           (foldl min a0 (fin_values (map alt rs))) (foldl max a1 (fin_values (map alt rs)))
           (foldl min s0 (fin_values (map spd rs))) (foldl max s1 (fin_values (map spd rs)))"
  using assms
proof (induction rs arbitrary: s a0 a1 s0 s1)
  case Nil
  then show ?case by simp
next
  case (Cons r rs)
  from Cons.IH [OF rangeS_ingest [OF Cons.prems, of r]] show ?case
    unfolding foldl_fin_values_Cons by simp
qed

lemma rangeS_finalize:
  assumes "fin_range (rangeS s) a0 a1 s0 s1"
  shows "fin_range (rangeS (finalizeAfterRowsParsed s))
           a0 (if a0 = a1 then a0 + 1 else a1) s0 (if s0 = s1 then s0 + 1 else s1)"
proof -
  obtain g where g: "rangeS s = g" by simp
  with assms have a: "altMin g = Fin a0" "altMax g = Fin a1" "spdMin g = Fin s0" "spdMax g = Fin s1"
    by (simp_all add: fin_range_def)
  show ?thesis
    unfolding fin_range_def finalizeAfterRowsParsed_def Let_def
    by (simp add: g a)
qed

lemma nudged_range:
  fixes lo hi :: real
  assumes "ys \<noteq> []"
  defines "mn \<equiv> foldl min lo ys" and "mx \<equiv> foldl max hi ys"
  shows "mn < (if mn = mx then mn + 1 else mx)"
proof -
  from assms(1) obtain y where y: "y \<in> set ys" by (cases ys) auto
  have "mn \<le> y" "y \<le> mx"
    using foldl_min_le_mem [OF y] foldl_max_ge_mem [OF y] by (simp_all add: mn_def mx_def)
  then show ?thesis by auto
qed

lemma constant_range:
  fixes c :: real
  assumes "ys \<noteq> []" "set ys \<subseteq> {c}" "- 1000000000 \<le> c" "c \<le> 1000000000"
  shows "foldl min 1000000000 ys = c" "foldl max (- 1000000000) ys = c"
  using assms by (simp_all add: foldl_min_const foldl_max_const)

text \<open>
  C8, as the code has it. After the samples are ingested and finalized, a dataset with a
  finite altitude has \<open>altMin < altMax\<close>. If all its finite altitudes are the same value
  \<open>A\<close>, and \<open>A\<close> lies between the two sentinels \<open>-1e9\<close> and \<open>1e9\<close> that the range
  starts from, then \<open>altMin = A\<close> and \<open>altMax = A + 1\<close>. The same holds of the speed
  range.
\<close>

theorem C8_range_after_finalize:
  fixes samples :: "row list" and A B :: real
  defines "g \<equiv> rangeS (track_of samples)"
  shows "((\<exists>r\<in>set samples. Number_isFinite (alt r)) \<longrightarrow> js_lt (altMin g) (altMax g))
       \<and> ((\<exists>r\<in>set samples. Number_isFinite (alt r))
            \<and> (\<forall>r\<in>set samples. Number_isFinite (alt r) \<longrightarrow> alt r = Fin A)
            \<and> - 1000000000 \<le> A \<and> A \<le> 1000000000
          \<longrightarrow> altMin g = Fin A \<and> altMax g = Fin (A + 1))
       \<and> ((\<exists>r\<in>set samples. Number_isFinite (spd r)) \<longrightarrow> js_lt (spdMin g) (spdMax g))
       \<and> ((\<exists>r\<in>set samples. Number_isFinite (spd r))
            \<and> (\<forall>r\<in>set samples. Number_isFinite (spd r) \<longrightarrow> spd r = Fin B)
            \<and> - 1000000000 \<le> B \<and> B \<le> 1000000000
          \<longrightarrow> spdMin g = Fin B \<and> spdMax g = Fin (B + 1))"
proof -
  let ?as = "fin_values (map alt samples)" and ?ss = "fin_values (map spd samples)"
  have "fin_range (rangeS resetDataHolders) 1000000000 (- 1000000000) 1000000000 (- 1000000000)"
    by (simp add: resetDataHolders_def fin_range_def)
  from rangeS_finalize [OF rangeS_foldl_ingest [OF this, of samples]]
  have g: "altMin g = Fin (foldl min 1000000000 ?as)"
    "altMax g = Fin (if foldl min 1000000000 ?as = foldl max (- 1000000000) ?as
                     then foldl min 1000000000 ?as + 1 else foldl max (- 1000000000) ?as)"
    "spdMin g = Fin (foldl min 1000000000 ?ss)"
    "spdMax g = Fin (if foldl min 1000000000 ?ss = foldl max (- 1000000000) ?ss
                     then foldl min 1000000000 ?ss + 1 else foldl max (- 1000000000) ?ss)"
    by (simp_all add: fin_range_def g_def track_of_def)
  have ne: "(\<exists>r\<in>set samples. Number_isFinite (f r)) \<Longrightarrow> fin_values (map f samples) \<noteq> []" for f
  proof -
    assume "\<exists>r\<in>set samples. Number_isFinite (f r)"
    then obtain r where "r \<in> set samples" "Number_isFinite (f r)" by blast
    then obtain a where "f r = Fin a" by (cases "f r") auto
    with \<open>r \<in> set samples\<close> have "a \<in> set (fin_values (map f samples))"
      by (force simp: set_fin_values)
    then show ?thesis by auto
  qed
  have sub: "(\<forall>r\<in>set samples. Number_isFinite (f r) \<longrightarrow> f r = Fin c)
              \<Longrightarrow> set (fin_values (map f samples)) \<subseteq> {c}" for f c
  proof
    fix x assume a: "\<forall>r\<in>set samples. Number_isFinite (f r) \<longrightarrow> f r = Fin c"
      and "x \<in> set (fin_values (map f samples))"
    then obtain r where r: "r \<in> set samples" "f r = Fin x"
      by (auto simp: set_fin_values)
    with a have "f r = Fin c" by simp
    with r show "x \<in> {c}" by simp
  qed
  show ?thesis
  proof (intro conjI impI)
    assume "\<exists>r\<in>set samples. Number_isFinite (alt r)"
    from nudged_range [OF ne [OF this]] show "js_lt (altMin g) (altMax g)"
      by (simp add: g)
  next
    assume "\<exists>r\<in>set samples. Number_isFinite (spd r)"
    from nudged_range [OF ne [OF this]] show "js_lt (spdMin g) (spdMax g)"
      by (simp add: g)
  next
    assume h: "(\<exists>r\<in>set samples. Number_isFinite (alt r))
            \<and> (\<forall>r\<in>set samples. Number_isFinite (alt r) \<longrightarrow> alt r = Fin A)
            \<and> - 1000000000 \<le> A \<and> A \<le> 1000000000"
    then have "?as \<noteq> []" "set ?as \<subseteq> {A}" using ne sub by blast+
    from constant_range [OF this] h show "altMin g = Fin A" "altMax g = Fin (A + 1)"
      by (simp_all add: g)
  next
    assume h: "(\<exists>r\<in>set samples. Number_isFinite (spd r))
            \<and> (\<forall>r\<in>set samples. Number_isFinite (spd r) \<longrightarrow> spd r = Fin B)
            \<and> - 1000000000 \<le> B \<and> B \<le> 1000000000"
    then have "?ss \<noteq> []" "set ?ss \<subseteq> {B}" using ne sub by blast+
    from constant_range [OF this] h show "spdMin g = Fin B" "spdMax g = Fin (B + 1)"
      by (simp_all add: g)
  qed
qed


text \<open>The theorem at a level flight with one sample that has no altitude and no speed.\<close>

theorem C8_witness:
  "map alt level_flight = [Fin 35000, NaN, Fin 35000]
   \<and> map spd level_flight = [Fin 450, NaN, Fin 450]
   \<and> js_lt (altMin (rangeS (track_of level_flight))) (altMax (rangeS (track_of level_flight)))
   \<and> altMin (rangeS (track_of level_flight)) = Fin 35000
   \<and> altMax (rangeS (track_of level_flight)) = Fin 35001
   \<and> js_lt (spdMin (rangeS (track_of level_flight))) (spdMax (rangeS (track_of level_flight)))
   \<and> spdMin (rangeS (track_of level_flight)) = Fin 450
   \<and> spdMax (rangeS (track_of level_flight)) = Fin 451"
proof -
  have a: "map alt level_flight = [Fin 35000, NaN, Fin 35000]"
    and b: "map spd level_flight = [Fin 450, NaN, Fin 450]"
    by (simp_all add: level_flight_def sample_def)
  have h: "\<exists>r\<in>set level_flight. Number_isFinite (alt r)"
    "\<forall>r\<in>set level_flight. Number_isFinite (alt r) \<longrightarrow> alt r = Fin 35000"
    "\<exists>r\<in>set level_flight. Number_isFinite (spd r)"
    "\<forall>r\<in>set level_flight. Number_isFinite (spd r) \<longrightarrow> spd r = Fin 450"
    by (simp_all add: level_flight_def sample_def)
  from C8_range_after_finalize [of level_flight 35000 450] h a b show ?thesis
    by simp
qed

lemma parse_as_track:
  assumes "nonblank_lines text = header # ls"
  shows "parseFromCSVText num text =
           track_of (List.map_filter (parseRow num (resolve_headers header)) ls)"
proof -
  have "text \<noteq> []"
    using assms by (auto simp: nonblank_lines_def trim_def)
  moreover have "foldl (row_pass num ix) s0 xs = foldl ingest s0 (List.map_filter (parseRow num ix) xs)"
    for ix s0 xs
    by (induction xs arbitrary: s0) (auto simp: row_pass_def split: option.splits)
  ultimately show ?thesis
    by (simp add: parseFromCSVText_def assms track_of_def)
qed

lemma high_altitude_lines:
  "nonblank_lines csv_high_altitude = [''Altitude,Position'', high_altitude_line]"
  by (simp add: csv_high_altitude_def high_altitude_line_def nonblank_lines_def trim_def
      js_space_def dquote_def)

lemma high_altitude_headers:
  "resolve_headers ''Altitude,Position'' =
     \<lparr>iPos = 1, iAlt = 0, iSpd = - 1, iHdg = - 1, iUtc = - 1, iTs = - 1\<rparr>"
  by (simp add: resolve_headers_def splitCSVLine_def findIdx_def toLowerCase_def toLowerChar_def
      trim_def js_space_def dquote_def comma_def)

lemma high_altitude_numbers:
  "decimal_num ''2000000000'' = Fin 2000000000" "decimal_num ''45'' = Fin 45"
  "decimal_num ''9'' = Fin 9"
  by (simp_all add: decimal_num_def digit_of_def trim_def js_space_def Let_def)

lemma high_altitude_columns: "splitCSVLine high_altitude_line = [''2000000000'', ''45,9'']"
  by (simp add: high_altitude_line_def splitCSVLine_def dquote_def comma_def)

lemma high_altitude_row:
  "parseRow decimal_num \<lparr>iPos = 1, iAlt = 0, iSpd = - 1, iHdg = - 1, iUtc = - 1, iTs = - 1\<rparr>
     high_altitude_line
   = Some \<lparr>lat = Fin 45, lon = Fin 9, alt = Fin 2000000000, spd = NaN, hdg = NaN, utc = [],
            timestampMs = NaN\<rparr>"
  unfolding parseRow_def high_altitude_columns
  by (simp add: no_columns_def position_field_def col_def at_index_def trim_def js_space_def
      comma_def high_altitude_numbers dquote_def Let_def)

text \<open>
  Outside the sentinels the claim as the specification words it fails: a single sample
  at \<open>A = 2e9\<close> feet leaves \<open>altMin\<close> at the sentinel \<open>1e9\<close>, not at \<open>A\<close>, and
  \<open>altMax\<close> at \<open>A\<close>, not at \<open>A + 1\<close>.
\<close>

theorem C8_counterexample:
  "map alt (rows (parseFromCSVText decimal_num csv_high_altitude)) = [Fin 2000000000]
   \<and> altMin (rangeS (parseFromCSVText decimal_num csv_high_altitude)) = Fin 1000000000
   \<and> altMax (rangeS (parseFromCSVText decimal_num csv_high_altitude)) = Fin 2000000000"
  unfolding parse_as_track [OF high_altitude_lines] high_altitude_headers
  by (simp add: high_altitude_row track_of_def finalizeAfterRowsParsed_def ingest_def
      resetDataHolders_def Let_def)

section \<open>Properties of the direction classifier\<close>




















section \<open>Properties of the speed encoder\<close>

lemma band_indices: "[0 ..< length SPEED_BANDS] = [0, 1, 2, 3, 4, 5]"
  by (simp add: SPEED_BANDS_def upt_rec)

lemmas color_eval = speedColor_def band_indices in_band_def SPEED_BANDS_def js_ge_def js_le_def
  band_color_def SMOOTH_KT_def constrain_def js_sub_def Let_def

text \<open>
  C9. A finite speed below zero is in no band: the loop ends without a match and the
  colour is the colour of the last band, the pink of the fastest one, with alpha 92; it
  is not the colour of the first band. NaN and the two infinities get the same result.
\<close>

theorem C9_negative_speed_falls_back:
  assumes "v < 0"
  shows "find (in_band (Fin v)) [0 ..< length SPEED_BANDS] = None
       \<and> speedColor (Fin v) = \<lparr> ch_r = Fin 255, ch_g = Fin 55, ch_b = Fin 95, ch_a = Fin 92 \<rparr>
       \<and> (ch_r (speedColor (Fin v)), ch_g (speedColor (Fin v)), ch_b (speedColor (Fin v)))
           = color (last SPEED_BANDS)
       \<and> (ch_r (speedColor (Fin v)), ch_g (speedColor (Fin v)), ch_b (speedColor (Fin v)))
           \<noteq> color (hd SPEED_BANDS)
       \<and> speedColor NaN = speedColor (Fin v)
       \<and> speedColor PInf = speedColor (Fin v)
       \<and> speedColor NInf = speedColor (Fin v)"
  using assms by (simp add: color_eval)

text \<open>The theorem at five knots below zero.\<close>

theorem C9_witness:
  "(- 5 :: real) < 0
   \<and> speedColor (Fin (- 5)) = \<lparr> ch_r = Fin 255, ch_g = Fin 55, ch_b = Fin 95, ch_a = Fin 92 \<rparr>
   \<and> speedColor NaN = speedColor (Fin (- 5))"
  using C9_negative_speed_falls_back [of "- 5"] by simp

text \<open>
  Near each boundary between two bands the colour is the rounded midpoint of the two
  band colours, on both sides and at the boundary itself.
\<close>

lemma boundary_40:
  assumes "0 < e" "e \<le> 1 / 1000"
  shows "speedColor (Fin (40 - e)) = speedColor (Fin 40)" "speedColor (Fin (40 + e)) = speedColor (Fin 40)"
  using assms by (simp_all add: color_eval floor_eq_iff)

lemma boundary_160:
  assumes "0 < e" "e \<le> 1 / 1000"
  shows "speedColor (Fin (160 - e)) = speedColor (Fin 160)" "speedColor (Fin (160 + e)) = speedColor (Fin 160)"
  using assms by (simp_all add: color_eval floor_eq_iff)

lemma boundary_300:
  assumes "0 < e" "e \<le> 1 / 1000"
  shows "speedColor (Fin (300 - e)) = speedColor (Fin 300)" "speedColor (Fin (300 + e)) = speedColor (Fin 300)"
  using assms by (simp_all add: color_eval floor_eq_iff)

lemma boundary_420:
  assumes "0 < e" "e \<le> 1 / 1000"
  shows "speedColor (Fin (420 - e)) = speedColor (Fin 420)" "speedColor (Fin (420 + e)) = speedColor (Fin 420)"
  using assms by (simp_all add: color_eval floor_eq_iff)

lemma boundary_520:
  assumes "0 < e" "e \<le> 1 / 1000"
  shows "speedColor (Fin (520 - e)) = speedColor (Fin 520)" "speedColor (Fin (520 + e)) = speedColor (Fin 520)"
  using assms by (simp_all add: color_eval floor_eq_iff)

text \<open>
  C7. For every internal band boundary \<open>B\<close> (the lower edge of a band other than the
  first: 40, 160, 300, 420, 520) and every distance \<open>e\<close> up to \<open>0.001\<close>, the colours of
  \<open>B - e\<close> and \<open>B + e\<close> are the same, and the same as the colour of \<open>B\<close>: the
  difference in each channel is zero, and the transition at the boundary is continuous.
\<close>

theorem C7_color_continuous_at_boundaries:
  assumes "Fin B \<in> set (map band_min (tl SPEED_BANDS))" and "0 < e" and "e \<le> 1 / 1000"
  shows "speedColor (Fin (B - e)) = speedColor (Fin (B + e))
       \<and> speedColor (Fin (B - e)) = speedColor (Fin B)"
proof -
  from assms(1) have "B = 40 \<or> B = 160 \<or> B = 300 \<or> B = 420 \<or> B = 520"
    by (auto simp: SPEED_BANDS_def)
  then show ?thesis
    using boundary_40 [OF assms(2,3)] boundary_160 [OF assms(2,3)] boundary_300 [OF assms(2,3)]
      boundary_420 [OF assms(2,3)] boundary_520 [OF assms(2,3)]
    by auto
qed


text \<open>The theorem at the distance \<open>0.001\<close>, for the five boundaries.\<close>

theorem C7_witness:
  "speedColor (Fin (40 - 1 / 1000)) = speedColor (Fin (40 + 1 / 1000))
   \<and> speedColor (Fin (160 - 1 / 1000)) = speedColor (Fin (160 + 1 / 1000))
   \<and> speedColor (Fin (300 - 1 / 1000)) = speedColor (Fin (300 + 1 / 1000))
   \<and> speedColor (Fin (420 - 1 / 1000)) = speedColor (Fin (420 + 1 / 1000))
   \<and> speedColor (Fin (520 - 1 / 1000)) = speedColor (Fin (520 + 1 / 1000))"
proof -
  have e: "(0::real) < 1 / 1000" "(1::real) / 1000 \<le> 1 / 1000"
    by simp_all
  have b: "Fin 40 \<in> set (map band_min (tl SPEED_BANDS))"
    "Fin 160 \<in> set (map band_min (tl SPEED_BANDS))"
    "Fin 300 \<in> set (map band_min (tl SPEED_BANDS))"
    "Fin 420 \<in> set (map band_min (tl SPEED_BANDS))"
    "Fin 520 \<in> set (map band_min (tl SPEED_BANDS))"
    by (simp_all add: SPEED_BANDS_def)
  show ?thesis
    using C7_color_continuous_at_boundaries [OF b(1) e]
      C7_color_continuous_at_boundaries [OF b(2) e]
      C7_color_continuous_at_boundaries [OF b(3) e]
      C7_color_continuous_at_boundaries [OF b(4) e]
      C7_color_continuous_at_boundaries [OF b(5) e]
    by blast
qed

section \<open>Properties of the average speed\<close>

lemma scan_down_cases:
  "scan_down p k d = d \<or> (\<exists>j<k. scan_down p k d = int j \<and> p j)"
  by (induction k) (auto simp: less_Suc_eq)

lemma scan_down_none: "(\<forall>j<k. \<not> p j) \<Longrightarrow> scan_down p k d = d"
  by (induction k) auto

lemma landingIdx_lt: "landingIdx rs < int (length rs)"
proof (cases "landingIdx rs = - 1")
  case True
  then show ?thesis by simp
next
  case False
  then obtain j where j: "landingIdx rs = int j"
    using landingIdx_none_iff [of rs] by auto
  then have "j < length rs"
    using landingIdx_int_iff [of rs j] by auto
  with j show ?thesis by simp
qed

lemma flightSpan_end_lt: "snd (flightSpan rs) < int (length rs)"
  using landingIdx_lt [of rs] scan_down_cases [of "has_time rs" "length rs" "landingIdx rs"]
  by (auto simp: flightSpan_def Let_def)

lemma flightSpan_no_start:
  assumes "fst (flightSpan rs) < 0"
  shows "snd (flightSpan rs) = - 1"
proof -
  have t: "takeoffIdx rs = - 1"
    using assms takeoffIdx_cases [of rs] by (auto simp: flightSpan_def Let_def split: if_splits)
  then have s: "scan_up (has_time rs) 0 (length rs) (- 1) < 0"
    using assms by (simp add: flightSpan_def Let_def)
  have "scan_up (has_time rs) 0 (length rs) (- 1) = - 1"
    using s scan_up_range [of "- 1" "has_time rs" 0 "length rs"] by auto
  then have "\<forall>j<length rs. \<not> has_time rs j"
    using scan_up_default_iff [of "- 1" "has_time rs" 0 "length rs"] by simp
  then have "scan_down (has_time rs) (length rs) (- 1) = - 1"
    by (rule scan_down_none)
  moreover have "landingIdx rs = - 1"
    using t by (simp add: landingIdx_def)
  ultimately show ?thesis
    using t s by (simp add: flightSpan_def Let_def)
qed

lemma segment_pass_eq:
  assumes "i + 1 < length rs"
  shows "segment_pass rs acc i =
           (if contributes (rs ! i) (rs ! (i + 1))
            then (js_add (fst acc) (js_mul (js_mul (Fin (1 / 2)) (js_add (spd (rs ! i)) (spd (rs ! (i + 1)))))
                                    (segment_dt (rs ! i) (rs ! (i + 1)))),
                  js_add (snd acc) (segment_dt (rs ! i) (rs ! (i + 1))))
            else acc)"
proof -
  have le: "js_le x (Fin 0) \<longleftrightarrow> \<not> js_gt x (Fin 0)" if "Number_isFinite x" for x
    using that by (cases x) (auto simp: js_le_def js_gt_def)
  from assms have "at_index rs i = Some (rs ! i)" "at_index rs (i + 1) = Some (rs ! (i + 1))"
    by (simp_all add: at_index_def)
  then show ?thesis
    by (auto simp: segment_pass_def contributes_def contributes_as_claimed_def segment_dt_def
        Let_def le)
qed

lemma foldl_segment_pass:
  assumes "\<forall>i\<in>set xs. i + 1 < length rs"
  shows "foldl (segment_pass rs) (a, b) xs =
           (foldl js_add a
              (map (\<lambda>i. js_mul (js_mul (Fin (1 / 2)) (js_add (spd (rs ! i)) (spd (rs ! (i + 1)))))
                                    (segment_dt (rs ! i) (rs ! (i + 1))))
                 (filter (\<lambda>i. contributes (rs ! i) (rs ! (i + 1))) xs)),
            foldl js_add b
              (map (\<lambda>i. segment_dt (rs ! i) (rs ! (i + 1)))
                 (filter (\<lambda>i. contributes (rs ! i) (rs ! (i + 1))) xs)))"
  using assms
proof (induction xs arbitrary: a b)
  case Nil
  show ?case by simp
next
  case (Cons i xs)
  then have i: "i + 1 < length rs" and xs: "\<forall>i\<in>set xs. i + 1 < length rs"
    by simp_all
  show ?case
    by (simp add: segment_pass_eq [OF i] Cons.IH [OF xs])
qed

text \<open>
  C4, as the code has it. Over the span from \<open>iStart\<close> to \<open>iEnd\<close> that the detector
  settles on, the average speed is the time-weighted average of the specification, in
  which a pair contributes exactly when both timestamps are finite,
  \<open>dt = (b.timestampMs - a.timestampMs) / 1000 > 0\<close>, both altitudes are finite and
  above zero, and both speeds are finite; the result is \<open>weightedSum / totalDuration\<close>
  when the total duration is positive and none otherwise.
\<close>

theorem C4_average_speed_is_weighted_average:
  "updateAvgSpeedDuringFlight rs =
     weighted_average contributes rs (nat (fst (flightSpan rs))) (nat (snd (flightSpan rs)))"
proof -
  obtain iStart iEnd where span: "flightSpan rs = (iStart, iEnd)"
    by (cases "flightSpan rs")
  show ?thesis
  proof (cases "iStart \<ge> 0 \<and> iEnd > iStart")
    case False
    have "nat iEnd \<le> nat iStart"
    proof (cases "iStart < 0")
      case True
      with flightSpan_no_start [of rs] span show ?thesis by simp
    next
      case False
      with \<open>\<not> (iStart \<ge> 0 \<and> iEnd > iStart)\<close> show ?thesis by simp
    qed
    then have "[nat iStart ..< nat iEnd] = []" by simp
    with False show ?thesis
      by (auto simp: updateAvgSpeedDuringFlight_def span weighted_average_def js_sum_def js_gt_def)
  next
    case True
    have "nat iEnd < length rs"
      using flightSpan_end_lt [of rs] span True by auto
    then have "\<forall>i\<in>set [nat iStart ..< nat iEnd]. i + 1 < length rs"
      by auto
    from foldl_segment_pass [OF this] True show ?thesis
      by (simp add: updateAvgSpeedDuringFlight_def span weighted_average_def js_sum_def Let_def)
  qed
qed

text \<open>
  The theorem at a short flight: the span is \<open>[1, 4)\<close>, two segments of 20 and 10
  seconds at 150 and 180 knots count, the last one ends on the ground, and the average
  is 160 knots.
\<close>

theorem C4_witness:
  "flightSpan short_flight = (1, 4)
   \<and> weighted_average contributes short_flight 1 4 = Some (Fin 160)
   \<and> updateAvgSpeedDuringFlight short_flight = Some (Fin 160)"
proof -
  have s: "flightSpan short_flight = (1, 4)"
    by code_simp
  have w: "weighted_average contributes short_flight 1 4 = Some (Fin 160)"
    by code_simp
  from C4_average_speed_is_weighted_average [of short_flight] s w show ?thesis
    by simp
qed

text \<open>
  Without the test for finite timestamps the claim fails. With an infinite timestamp in
  the middle sample, the first pair has \<open>dt = Infinity > 0\<close> and airborne endpoints
  with finite speeds, so by the specification's words it contributes and the average is
  \<open>Infinity / Infinity\<close>, NaN; the code skips both pairs and has no average.
\<close>

theorem C4_counterexample:
  "contributes_as_claimed (infinite_time_flight ! 0) (infinite_time_flight ! 1)
   \<and> flightSpan infinite_time_flight = (0, 2)
   \<and> weighted_average contributes_as_claimed infinite_time_flight 0 2 = Some NaN
   \<and> updateAvgSpeedDuringFlight infinite_time_flight = None"
  by code_simp

section \<open>Properties of the rosette geometry mapper\<close>

lemma rows_track_of: "rows (track_of samples) = samples"
proof -
  have "rows (foldl ingest s xs) = rows s @ xs" for s xs
    by (induction xs arbitrary: s) (simp_all add: rows_ingest)
  then show ?thesis
    by (simp add: track_of_def rows_finalize resetDataHolders_def)
qed

lemma length_pts: "length (pts (buildRosettePoints w h s)) = length (rows s) + 2"
  by (simp add: buildRosettePoints_def Let_def)

lemma pts_original:
  "i < length (rows s) \<Longrightarrow> pts (buildRosettePoints w h s) ! i \<noteq> None"
  by (simp add: buildRosettePoints_def Let_def nth_append)

lemma pts_first_copy:
  "pts (buildRosettePoints w h s) ! length (rows s) =
     (if 0 < length (rows s) then pts (buildRosettePoints w h s) ! 0 else None)"
  by (simp add: buildRosettePoints_def Let_def nth_append at_index_def)

lemma pts_second_copy:
  "pts (buildRosettePoints w h s) ! (length (rows s) + 1) =
     (if 1 < length (rows s) then pts (buildRosettePoints w h s) ! 1 else None)"
  by (simp add: buildRosettePoints_def Let_def nth_append at_index_def)

text \<open>
  C2, as the code has it. For a track of \<open>N\<close> samples with \<open>N\<close> at least 2, the point
  sequence has length \<open>N + 2\<close>, its element \<open>N\<close> is its element 0 and its element
  \<open>N + 1\<close> is its element 1, both of them points.
\<close>

theorem C2_rosette_closed:
  assumes "2 \<le> length (rows s)"
  shows "length (pts (buildRosettePoints w h s)) = length (rows s) + 2
       \<and> pts (buildRosettePoints w h s) ! length (rows s) = pts (buildRosettePoints w h s) ! 0
       \<and> pts (buildRosettePoints w h s) ! (length (rows s) + 1) = pts (buildRosettePoints w h s) ! 1
       \<and> pts (buildRosettePoints w h s) ! 0 \<noteq> None
       \<and> pts (buildRosettePoints w h s) ! 1 \<noteq> None"
proof -
  let ?p = "pts (buildRosettePoints w h s)"
  from assms have n: "0 < length (rows s)" "1 < length (rows s)"
    by linarith+
  have a: "?p ! length (rows s) = ?p ! 0"
    using n(1) by (simp add: pts_first_copy)
  have b: "?p ! (length (rows s) + 1) = ?p ! 1"
    using n(2) by (simp only: pts_second_copy if_True)
  have c: "?p ! 0 \<noteq> None" "?p ! 1 \<noteq> None"
    using pts_original [OF n(1), of w h] pts_original [OF n(2), of w h] by blast+
  from length_pts [of w h s] a b c show ?thesis
    by blast
qed

text \<open>The theorem at the track of seven samples, on a canvas of 800 by 600.\<close>

theorem C2_witness:
  "2 \<le> length (rows (track_of phase_example))
   \<and> length (pts (buildRosettePoints (Fin 800) (Fin 600) (track_of phase_example))) = 9
   \<and> pts (buildRosettePoints (Fin 800) (Fin 600) (track_of phase_example)) ! 7
       = pts (buildRosettePoints (Fin 800) (Fin 600) (track_of phase_example)) ! 0
   \<and> pts (buildRosettePoints (Fin 800) (Fin 600) (track_of phase_example)) ! 8
       = pts (buildRosettePoints (Fin 800) (Fin 600) (track_of phase_example)) ! 1"
proof -
  have n: "length (rows (track_of phase_example)) = 7"
    by (simp add: rows_track_of phase_example_def)
  then have "2 \<le> length (rows (track_of phase_example))"
    by simp
  from C2_rosette_closed [OF this, of "Fin 800" "Fin 600"] n show ?thesis
    by simp
qed

text \<open>
  For a track of one sample the claim as the specification words it fails: there is no
  second point, \<open>pts[1]\<close> is \<open>undefined\<close> when it is pushed, and so the element
  \<open>N + 1 = 2\<close> is \<open>undefined\<close> while the element 1 is the copy of the first point.
\<close>

theorem C2_counterexample:
  "length (rows (track_of single_sample)) = 1
   \<and> length (pts (buildRosettePoints (Fin 800) (Fin 600) (track_of single_sample))) = 3
   \<and> pts (buildRosettePoints (Fin 800) (Fin 600) (track_of single_sample)) ! 1
       = pts (buildRosettePoints (Fin 800) (Fin 600) (track_of single_sample)) ! 0
   \<and> pts (buildRosettePoints (Fin 800) (Fin 600) (track_of single_sample)) ! 2 = None
   \<and> pts (buildRosettePoints (Fin 800) (Fin 600) (track_of single_sample)) ! 2
       \<noteq> pts (buildRosettePoints (Fin 800) (Fin 600) (track_of single_sample)) ! 1"
proof -
  let ?p = "pts (buildRosettePoints (Fin 800) (Fin 600) (track_of single_sample))"
  have n: "length (rows (track_of single_sample)) = 1"
    by (simp add: rows_track_of single_sample_def)
  have l: "length ?p = 3"
    by (simp add: length_pts n)
  have a: "?p ! 1 = ?p ! 0"
    using pts_first_copy [of "Fin 800" "Fin 600" "track_of single_sample"] by (simp add: n)
  have "?p ! (1 + 1) = None"
    using pts_second_copy [of "Fin 800" "Fin 600" "track_of single_sample"] by (simp only: n) simp
  then have b: "?p ! 2 = None"
    by (simp only: one_add_one)
  have c: "?p ! 0 \<noteq> None"
    by (rule pts_original) (simp add: n)
  from c have "?p ! 2 \<noteq> ?p ! 1"
    unfolding a b by auto
  with n l a b show ?thesis
    by blast
qed

section \<open>Properties of the pointer-to-sample resolver\<close>

text \<open>The inversion of the angle, for an angle that is any number of turns away.\<close>

lemma trunc_add_int:
  fixes t :: real
  assumes "0 \<le> t" "t < 1"
  shows "of_int (trunc (t + of_int k)) = (if 0 \<le> t + of_int k \<or> t = 0 then of_int k else of_int k + (1::real))"
proof -
  have f: "\<lfloor>t + of_int k\<rfloor> = k"
    using assms by (simp add: floor_eq_iff)
  have c: "\<lceil>t + of_int k\<rceil> = (if t = 0 then k else k + 1)"
    using assms by (auto simp: ceiling_eq_iff)
  show ?thesis
    using f c by (auto simp: trunc_def)
qed

lemma round_trip:
  fixes t :: real
  assumes "0 \<le> t" "t < 1"
  shows "angle_to_fraction (js_add (forward_angle (Fin t)) (Fin (2 * pi * of_int k))) = Fin t"
proof -
  define x where "x = 2 * pi * (t + of_int k)"
  have q: "x / (2 * pi) = t + of_int k"
    by (simp add: x_def)
  have a: "js_sub (js_add (forward_angle (Fin t)) (Fin (2 * pi * of_int k))) HALF_PI = Fin x"
    by (simp add: forward_angle_def HALF_PI_def TWO_PI_def js_sub_def x_def algebra_simps)
  have r: "js_rem (Fin x) (Fin (2 * pi)) = Fin (x - 2 * pi * of_int (trunc (t + of_int k)))"
    by (simp add: q)
  show ?thesis
  proof (cases "0 \<le> t + of_int k \<or> t = 0")
    case True
    then have e: "x - 2 * pi * of_int (trunc (t + of_int k)) = 2 * pi * t"
      using trunc_add_int [OF assms, of k] by (simp add: x_def algebra_simps)
    have "\<not> 2 * pi * t < 0"
      using assms by (simp add: not_less)
    then show ?thesis
      unfolding angle_to_fraction_def a TWO_PI_def r e Let_def
      by simp
  next
    case False
    then have e: "x - 2 * pi * of_int (trunc (t + of_int k)) = 2 * pi * t - 2 * pi"
      using trunc_add_int [OF assms, of k] by (simp add: x_def algebra_simps)
    have "2 * pi * t - 2 * pi < 0"
      using assms by simp
    then show ?thesis
      unfolding angle_to_fraction_def a TWO_PI_def r e Let_def
      by simp
  qed
qed

lemma rem_bounds:
  fixes y b :: real
  assumes "0 < b"
  shows "- b < y - b * of_int (trunc (y / b))" "y - b * of_int (trunc (y / b)) < b"
proof -
  define z where "z = y / b"
  have y: "y = b * z" using assms by (simp add: z_def)
  have "- 1 < z - of_int (trunc z)" "z - of_int (trunc z) < 1"
    by (auto simp: trunc_def) linarith+
  then have "b * (- 1) < b * (z - of_int (trunc z))" "b * (z - of_int (trunc z)) < b * 1"
    using assms by (simp_all only: mult_less_cancel_left_pos)
  then show "- b < y - b * of_int (trunc (y / b))" "y - b * of_int (trunc (y / b)) < b"
    unfolding y using assms by (simp_all add: algebra_simps)
qed

lemma angle_to_fraction_range:
  "\<exists>u. angle_to_fraction (Fin a) = Fin u \<and> 0 \<le> u \<and> u < 1"
proof -
  define r where "r = (a - pi / 2) - 2 * pi * of_int (trunc ((a - pi / 2) / (2 * pi)))"
  have b: "- (2 * pi) < r" "r < 2 * pi"
    unfolding r_def by (rule rem_bounds, simp)+
  have "angle_to_fraction (Fin a) = Fin ((if r < 0 then r + 2 * pi else r) / (2 * pi))"
    by (simp add: angle_to_fraction_def HALF_PI_def TWO_PI_def js_sub_def r_def Let_def)
  moreover have "0 \<le> (if r < 0 then r + 2 * pi else r) / (2 * pi)"
    using b by simp
  moreover have "(if r < 0 then r + 2 * pi else r) / (2 * pi) < 1"
    using b by simp
  ultimately show ?thesis by blast
qed


text \<open>The nearest-timestamp loop.\<close>

lemma abs_accepted:
  assumes "js_lt (Math_abs x) best"
  shows "Number_isFinite (Math_abs x)"
  using assms by (cases x; cases best) simp_all

lemma not_le_finite:
  assumes "\<not> js_le d e" "Number_isFinite d" "Number_isFinite e"
  shows "js_lt e d"
  using assms by (cases d; cases e) (auto simp: js_le_def)

lemma nearest_scan_unique:
  fixes rs :: "row list" and tgt :: jsnum
  defines "gap \<equiv> \<lambda>j. Math_abs (js_sub (timestampMs (rs ! j)) tgt)"
  assumes i: "i < n" and fin: "Number_isFinite (gap i)"
    and others: "\<forall>j<n. j \<noteq> i \<longrightarrow> \<not> js_le (gap j) (gap i)"
  shows "foldl (nearest_pass rs tgt) (0, PInf) [0 ..< n] = (i, gap i)"
proof -
  let ?best = "\<lambda>m. foldl (nearest_pass rs tgt) (0, PInf) [0 ..< m]"
  have step: "?best (Suc m) = (if js_lt (gap m) (snd (?best m)) then (m, gap m) else ?best m)" for m
    by (simp add: nearest_pass_def gap_def Let_def)
  have inv: "m \<le> n \<Longrightarrow>
      (m \<le> i \<longrightarrow> js_lt (gap i) (snd (?best m))) \<and> (i < m \<longrightarrow> ?best m = (i, gap i))" for m
  proof (induction m)
    case 0
    from fin show ?case by (cases "gap i") simp_all
  next
    case (Suc m)
    then have m: "m < n" and IH: "(m \<le> i \<longrightarrow> js_lt (gap i) (snd (?best m)))"
      "(i < m \<longrightarrow> ?best m = (i, gap i))"
      by simp_all
    consider "m < i" | "m = i" | "i < m" by linarith
    then show ?case
    proof cases
      case 1
      then have far: "\<not> js_le (gap m) (gap i)"
        using others m by simp
      have "js_lt (gap i) (snd (?best (Suc m)))"
      proof (cases "js_lt (gap m) (snd (?best m))")
        case True
        then have "Number_isFinite (gap m)"
          unfolding gap_def by (rule abs_accepted)
        from not_le_finite [OF far this fin] True show ?thesis
          by (simp only: step if_True snd_conv)
      next
        case False
        with IH(1) 1 show ?thesis
          by (simp only: step if_False)
      qed
      with 1 show ?thesis by simp
    next
      case 2
      with IH(1) have "js_lt (gap m) (snd (?best m))" by simp
      then have "?best (Suc m) = (m, gap m)"
        by (simp only: step if_True)
      with 2 show ?thesis by simp
    next
      case 3
      then have b: "?best m = (i, gap i)" using IH(2) by simp
      have "\<not> js_le (gap m) (gap i)"
        using others m 3 by simp
      then have "\<not> js_lt (gap m) (snd (?best m))"
        by (simp add: b js_le_def)
      then have "?best (Suc m) = ?best m"
        by (simp only: step if_False)
      with b 3 show ?thesis by simp
    qed
  qed
  from inv [of n] i show ?thesis by simp
qed

lemma nearest_scan_index:
  "fst (foldl (nearest_pass rs tgt) (0, PInf) [0 ..< m]) < max 1 m"
proof (induction m)
  case 0
  show ?case by simp
next
  case (Suc m)
  have "foldl (nearest_pass rs tgt) (0, PInf) [0 ..< Suc m]
        = nearest_pass rs tgt (foldl (nearest_pass rs tgt) (0, PInf) [0 ..< m]) m"
    by simp
  with Suc show ?case
    by (auto simp: nearest_pass_def Let_def)
qed

lemma constrain_index:
  assumes "k < n"
  shows "constrain (Fin (real k)) (Fin 0) (js_sub (Fin (real n)) (Fin 1)) = Fin (real k)"
  using assms by (auto simp: constrain_def js_sub_def)

lemma round_fraction_index:
  fixes u :: real
  assumes "0 \<le> u" "u < 1" "0 < n"
  shows "\<exists>k<n. Math_round (js_mul (Fin u) (js_sub (Fin (real n)) (Fin 1))) = Fin (real k)"
proof -
  define z where "z = \<lfloor>u * (real n - 1) + 1 / 2\<rfloor>"
  have n1: "0 \<le> real n - 1" using assms(3) by simp
  have "0 \<le> u * (real n - 1)"
    using assms(1) n1 by simp
  then have z0: "0 \<le> z"
    unfolding z_def by simp
  have "u * (real n - 1) \<le> real n - 1"
    using assms n1 by (simp add: mult_left_le_one_le mult.commute)
  then have "u * (real n - 1) + 1 / 2 < real n"
    by simp
  then have "z < int n"
    unfolding z_def by (simp add: floor_less_iff)
  with z0 have "nat z < n" "real (nat z) = of_int z"
    by simp_all
  moreover have "Math_round (js_mul (Fin u) (js_sub (Fin (real n)) (Fin 1))) = Fin (of_int z)"
    by (simp add: js_sub_def z_def)
  ultimately show ?thesis by auto
qed

text \<open>
  C6. For a time fraction \<open>t\<close> in \<open>[0, 1)\<close>, the inversion of the resolver applied to
  the forward angle \<open>HALF_PI + t * TWO_PI\<close> gives \<open>t\<close> back (in this model of exact
  arithmetic with no error at all), also when the angle comes back a whole number of
  turns away, as \<open>Math.atan2\<close> returns it. When a sample is the unique closest in time
  to the target time of \<open>t\<close>, the resolver returns its index. And for a track that is
  not empty the resolver returns an index of the track, whatever the angle.
\<close>

theorem C6_pointer_round_trip:
  fixes t :: real
  assumes "0 \<le> t" and "t < 1"
  shows "angle_to_fraction (forward_angle (Fin t)) = Fin t
       \<and> (\<forall>k::int. angle_to_fraction (js_add (forward_angle (Fin t)) (Fin (2 * pi * of_int k))) = Fin t)
       \<and> (\<forall>i. unique_closest s (Fin t) i \<longrightarrow>
             getIndexFromMouse (forward_angle (Fin t)) (Fin (real (length (rows s)))) s = Fin (real i))
       \<and> (\<forall>a. rows s \<noteq> [] \<longrightarrow>
             (\<exists>k<length (rows s). getIndexFromMouse (Fin a) (Fin (real (length (rows s)))) s = Fin (real k)))"
proof (intro conjI allI impI)
  show "angle_to_fraction (js_add (forward_angle (Fin t)) (Fin (2 * pi * of_int k))) = Fin t" for k :: int
    using assms by (rule round_trip)
  from round_trip [OF assms, of 0]
  show rt: "angle_to_fraction (forward_angle (Fin t)) = Fin t"
    by (simp add: forward_angle_def HALF_PI_def TWO_PI_def)
  show "getIndexFromMouse (forward_angle (Fin t)) (Fin (real (length (rows s)))) s = Fin (real i)"
    if u: "unique_closest s (Fin t) i" for i
  proof -
    from u have i: "i < length (rows s)"
      and fin: "Number_isFinite (Math_abs (js_sub (timestampMs (rows s ! i)) (target_time s (Fin t))))"
      and others: "\<forall>j<length (rows s). j \<noteq> i \<longrightarrow>
        \<not> js_le (Math_abs (js_sub (timestampMs (rows s ! j)) (target_time s (Fin t))))
                (Math_abs (js_sub (timestampMs (rows s ! i)) (target_time s (Fin t))))"
      by (auto simp: unique_closest_def time_distance_def list_all_iff)
    from nearest_scan_unique [OF i fin others] fin constrain_index [OF i] show ?thesis
      by (cases "Math_abs (js_sub (timestampMs (rows s ! i)) (target_time s (Fin t)))")
         (simp_all add: getIndexFromMouse_def rt js_sne_def)
  qed
  show "\<exists>k<length (rows s). getIndexFromMouse (Fin a) (Fin (real (length (rows s)))) s = Fin (real k)"
    if ne: "rows s \<noteq> []" for a
  proof -
    obtain u where u: "angle_to_fraction (Fin a) = Fin u" "0 \<le> u" "u < 1"
      using angle_to_fraction_range [of a] by blast
    let ?best = "foldl (nearest_pass (rows s) (target_time s (Fin u))) (0, PInf) [0 ..< length (rows s)]"
    from ne have n: "0 < length (rows s)" by simp
    have b: "fst ?best < length (rows s)"
      using nearest_scan_index [of "rows s" "target_time s (Fin u)" "length (rows s)"] n by simp
    show ?thesis
    proof (cases "js_sne (snd ?best) PInf")
      case True
      then have "getIndexFromMouse (Fin a) (Fin (real (length (rows s)))) s = Fin (real (fst ?best))"
        using constrain_index [OF b] by (simp add: getIndexFromMouse_def u split_beta)
      with b show ?thesis by blast
    next
      case False
      obtain k where k: "k < length (rows s)"
        "Math_round (js_mul (Fin u) (js_sub (Fin (real (length (rows s)))) (Fin 1))) = Fin (real k)"
        using round_fraction_index [OF u(2,3) n] by blast
      from False have "getIndexFromMouse (Fin a) (Fin (real (length (rows s)))) s = Fin (real k)"
        using constrain_index [OF k(1)] k(2) by (simp add: getIndexFromMouse_def u split_beta)
      with k(1) show ?thesis by blast
    qed
  qed
qed


text \<open>
  The theorem at the middle sample of the track of seven samples: its time fraction is
  one half, and pointing at the angle of one half selects it.
\<close>

theorem C6_witness:
  "(0::real) \<le> 1 / 2 \<and> (1::real) / 2 < 1
   \<and> timeFracForRow (track_of phase_example) (rows (track_of phase_example) ! 3) = Fin (1 / 2)
   \<and> unique_closest (track_of phase_example) (Fin (1 / 2)) 3
   \<and> angle_to_fraction (forward_angle (Fin (1 / 2))) = Fin (1 / 2)
   \<and> getIndexFromMouse (forward_angle (Fin (1 / 2))) (Fin 7) (track_of phase_example) = Fin 3"
proof -
  have t: "(0::real) \<le> 1 / 2" "(1::real) / 2 < 1"
    by simp_all
  have f: "timeFracForRow (track_of phase_example) (rows (track_of phase_example) ! 3) = Fin (1 / 2)"
    by code_simp
  have u: "unique_closest (track_of phase_example) (Fin (1 / 2)) 3"
    by code_simp
  have n: "length (rows (track_of phase_example)) = 7"
    by (simp add: rows_track_of phase_example_def)
  from C6_pointer_round_trip [OF t, of "track_of phase_example"] u n
  have "angle_to_fraction (forward_angle (Fin (1 / 2))) = Fin (1 / 2)
        \<and> getIndexFromMouse (forward_angle (Fin (1 / 2))) (Fin 7) (track_of phase_example) = Fin 3"
    by auto
  with t f u show ?thesis
    by blast
qed

end
